theory Spec2Isabelle
  imports Main "HOL-Library.AList"
begin

section \<open>Data model of \<^verbatim>\<open>kijiji_api.py\<close>\<close>

text \<open>
  A Python \<^verbatim>\<open>str\<close> is modelled as a \<^typ>\<open>string\<close>: a list of characters, one
  \<^typ>\<open>char\<close> per code point (code points below 256), so that \<^const>\<open>length\<close> is
  Python's \<^verbatim>\<open>len\<close>.

  Values decoded from JSON (and from the relaxed YAML loader) are Python objects of
  several shapes; \<open>JObj\<close> is a \<^verbatim>\<open>dict\<close>, its pairs in insertion order with distinct
  keys.
\<close>

datatype json =
    JNull
  | JBool bool
  | JInt int
  | JStr string
  | JArr "json list"
  | JObj "(string \<times> json) list"

text \<open>
  The exceptions the module can let escape. \<open>KijijiApiException msg dumpfilepath\<close> is the
  module's own class with its two attributes; the others are Python's and the HTTP
  library's (\<open>HTTPError\<close> from \<^verbatim>\<open>raise_for_status\<close>, \<open>RequestException\<close> from a
  request that gets no response, \<open>YAMLError\<close> from the YAML loader).
\<close>

datatype exn =
    KijijiApiException string string
  | KeyError
  | TypeError
  | ValueError
  | AttributeError
  | HTTPError
  | RequestException
  | YAMLError

datatype http_method = GET | POST

record request =
  req_method :: http_method
  req_url :: string
  req_params :: "(string \<times> json) list"
  req_data :: "string \<rightharpoonup> json"
  req_files :: "(string \<times> string) list"
  req_headers :: "(string \<times> string) list"

text \<open>The headers of a response are the library's case-insensitive dictionary, keyed here
  by the lower-cased header name.\<close>

record response =
  status_code :: nat
  resp_text :: string
  resp_headers :: "string \<rightharpoonup> string"

text \<open>An element of a parsed document: its tag name, its attributes and its \<^verbatim>\<open>.string\<close>
  (\<^verbatim>\<open>None\<close> when the element has no single text child).\<close>

record tag =
  tag_name :: string
  tag_attrs :: "string \<rightharpoonup> string"
  tag_string :: "string option"

text \<open>
  What the module takes from outside: the remote site behind the session (its answer to a
  request is a function of the requests sent before, which covers cookies and server
  state; \<open>None\<close> is a request that raises), the HTML parser (the elements of a document,
  in document order), \<^verbatim>\<open>json.loads\<close> and \<^verbatim>\<open>yaml.load\<close> (\<open>None\<close> when they raise
  an exception), \<^verbatim>\<open>str.format\<close>'s rendering of a value, and the clock reading
  \<^verbatim>\<open>strftime("%Y%m%dT%H%M%S")\<close> gives when an exception is built.
\<close>

record env =
  server :: "request list \<Rightarrow> request \<Rightarrow> response option"
  html_parser :: "string \<Rightarrow> tag list"
  json_loads :: "string \<Rightarrow> json option"
  yaml_load :: "string \<Rightarrow> json option"
  str_of :: "json \<Rightarrow> string"
  strftime :: string

text \<open>The state the module changes: the requests sent through the session (oldest first),
  the files of the working directory, and the lines printed.\<close>

record state =
  sent :: "request list"
  files :: "string \<rightharpoonup> string"
  stdout :: "string list"

section \<open>Computations that may raise\<close>

type_synonym ('s, 'a) prog = "'s \<Rightarrow> (exn + 'a) \<times> 's"

definition return :: "'a \<Rightarrow> ('s, 'a) prog" where
  "return x s = (Inr x, s)"

definition raise :: "exn \<Rightarrow> ('s, 'a) prog" where
  "raise e s = (Inl e, s)"

definition bind :: "('s, 'a) prog \<Rightarrow> ('a \<Rightarrow> ('s, 'b) prog) \<Rightarrow> ('s, 'b) prog" where
  "bind m f s = (case m s of (Inl e, s') \<Rightarrow> (Inl e, s') | (Inr x, s') \<Rightarrow> f x s')"

definition lift_result :: "exn + 'a \<Rightarrow> ('s, 'a) prog" where
  "lift_result r s = (r, s)"

section \<open>Python built-ins used by the module\<close>

definition newline :: char where
  "newline = CHR 0x0A"

definition backslash :: char where
  "backslash = CHR 0x5C"

definition quote :: char where
  "quote = CHR 0x27"

text \<open>\<^verbatim>\<open>str.isspace\<close> on one character, which is also the regular expression class
  \<^verbatim>\<open>\s\<close> of a \<^verbatim>\<open>str\<close> pattern.\<close>

definition is_space :: "char \<Rightarrow> bool" where
  "is_space c = ((of_char c :: nat) \<in> {9, 10, 11, 12, 13, 28, 29, 30, 31, 32, 133, 160})"

definition is_digit :: "char \<Rightarrow> bool" where
  "is_digit c = (48 \<le> (of_char c :: nat) \<and> (of_char c :: nat) \<le> 57)"

definition strip :: "string \<Rightarrow> string" where
  "strip s = rev (dropWhile is_space (rev (dropWhile is_space s)))"

definition starts_with :: "string \<Rightarrow> string \<Rightarrow> bool" where
  "starts_with p s = (take (length p) s = p)"

text \<open>\<^verbatim>\<open>sub in s\<close> on strings.\<close>

fun contains :: "string \<Rightarrow> string \<Rightarrow> bool" where
  "contains sub [] = (sub = [])"
| "contains sub (c # cs) = (starts_with sub (c # cs) \<or> contains sub cs)"

text \<open>\<^verbatim>\<open>s.replace(old, new)\<close> for a non-empty \<open>old\<close>: occurrences are replaced from the left,
  without overlap.\<close>

function replace :: "string \<Rightarrow> string \<Rightarrow> string \<Rightarrow> string" where
  "replace old new [] = []"
| "replace old new (c # cs) =
     (if old \<noteq> [] \<and> starts_with old (c # cs)
      then new @ replace old new (drop (length old) (c # cs))
      else c # replace old new cs)"
  by pat_completeness auto
termination
  by (relation "measure (\<lambda>(old, new, s). length s)") (auto simp: starts_with_def)

text \<open>\<^verbatim>\<open>sep.join(xs)\<close>.\<close>

fun join :: "string \<Rightarrow> string list \<Rightarrow> string" where
  "join sep [] = []"
| "join sep [x] = x"
| "join sep (x # y # ys) = x @ sep @ join sep (y # ys)"

text \<open>\<^verbatim>\<open>obj[key]\<close> with a string key: only a \<^verbatim>\<open>dict\<close> can answer; a missing key is a
  \<^verbatim>\<open>KeyError\<close>, any other object a \<^verbatim>\<open>TypeError\<close>.\<close>

fun getitem :: "json \<Rightarrow> string \<Rightarrow> exn + json" where
  "getitem (JObj kvs) k = (case map_of kvs k of None \<Rightarrow> Inl KeyError | Some v \<Rightarrow> Inr v)"
| "getitem _ k = Inl TypeError"

text \<open>Truth value of an object, as \<^verbatim>\<open>if obj:\<close> tests it.\<close>

fun truthy :: "json \<Rightarrow> bool" where
  "truthy JNull = False"
| "truthy (JBool b) = b"
| "truthy (JInt n) = (n \<noteq> 0)"
| "truthy (JStr s) = (s \<noteq> [])"
| "truthy (JArr xs) = (xs \<noteq> [])"
| "truthy (JObj kvs) = (kvs \<noteq> [])"

text \<open>\<^verbatim>\<open>obj.values()\<close> and \<^verbatim>\<open>obj.items()\<close>: only a \<^verbatim>\<open>dict\<close> has them.\<close>

fun dict_items :: "json \<Rightarrow> exn + (string \<times> json) list" where
  "dict_items (JObj kvs) = Inr kvs"
| "dict_items _ = Inl AttributeError"

fun dict_values :: "json \<Rightarrow> exn + json list" where
  "dict_values (JObj kvs) = Inr (map snd kvs)"
| "dict_values _ = Inl AttributeError"

text \<open>\<^verbatim>\<open>range(a, b)\<close>\<close>

definition py_range :: "nat \<Rightarrow> nat \<Rightarrow> nat list" where
  "py_range a b = [a..<b]"

text \<open>Decimal rendering of a natural number, for \<^verbatim>\<open>"{}".format(i+1)\<close>.\<close>

fun show_nat :: "nat \<Rightarrow> string" where
  "show_nat n =
     (if n < 10 then [''0123456789'' ! n]
      else show_nat (n div 10) @ [''0123456789'' ! (n mod 10)])"

declare show_nat.simps [simp del]

section \<open>The session\<close>

text \<open>Every request goes through the session: it is recorded, and the site answers it
  from the requests sent before.\<close>

definition session_send :: "env \<Rightarrow> request \<Rightarrow> (state, response) prog" where
  "session_send env rq s =
     (case server env (sent s) rq of
        None \<Rightarrow> (Inl RequestException, s\<lparr>sent := sent s @ [rq]\<rparr>)
      | Some r \<Rightarrow> (Inr r, s\<lparr>sent := sent s @ [rq]\<rparr>))"

definition get_request :: "string \<Rightarrow> (string \<times> json) list \<Rightarrow> request" where
  "get_request u ps =
     \<lparr>req_method = GET, req_url = u, req_params = ps, req_data = Map.empty,
      req_files = [], req_headers = []\<rparr>"

definition post_request ::
  "string \<Rightarrow> (string \<rightharpoonup> json) \<Rightarrow> (string \<times> string) list \<Rightarrow> (string \<times> string) list \<Rightarrow> request" where
  "post_request u d fs hs =
     \<lparr>req_method = POST, req_url = u, req_params = [], req_data = d,
      req_files = fs, req_headers = hs\<rparr>"

definition session_get :: "env \<Rightarrow> string \<Rightarrow> (string \<times> json) list \<Rightarrow> (state, response) prog" where
  "session_get env u ps = session_send env (get_request u ps)"

definition session_post ::
  "env \<Rightarrow> string \<Rightarrow> (string \<rightharpoonup> json) \<Rightarrow> (string \<times> string) list \<Rightarrow> (string \<times> string) list
     \<Rightarrow> (state, response) prog" where
  "session_post env u d fs hs = session_send env (post_request u d fs hs)"

text \<open>\<^verbatim>\<open>resp.raise_for_status()\<close>: a 4xx or 5xx status raises.\<close>

definition raise_for_status :: "response \<Rightarrow> (state, unit) prog" where
  "raise_for_status r =
     (if 400 \<le> status_code r \<and> status_code r < 600 then raise HTTPError else return ())"

definition print_line :: "string \<Rightarrow> (state, unit) prog" where
  "print_line msg s = (Inr (), s\<lparr>stdout := stdout s @ [msg]\<rparr>)"

section \<open>\<^verbatim>\<open>KijijiApiException\<close>\<close>

text \<open>
  The constructor keeps the message and, when a dump is given and is not empty
  (\<^verbatim>\<open>if dump:\<close>), appends it to a file named after the clock and keeps that file's name;
  otherwise \<^verbatim>\<open>dumpfilepath\<close> stays empty and no file is touched.
\<close>

definition dump_path :: "env \<Rightarrow> string" where
  "dump_path env = ''kijijiapi_dump_'' @ strftime env @ ''.txt''"

definition append_file :: "string \<Rightarrow> string \<Rightarrow> (string \<rightharpoonup> string) \<Rightarrow> (string \<rightharpoonup> string)" where
  "append_file p d fs = fs(p \<mapsto> (case fs p of None \<Rightarrow> d | Some old \<Rightarrow> old @ d))"

definition raise_api :: "env \<Rightarrow> string \<Rightarrow> string option \<Rightarrow> (state, 'a) prog" where
  "raise_api env msg dump s =
     (case dump of
        None \<Rightarrow> (Inl (KijijiApiException msg []), s)
      | Some d \<Rightarrow>
          if d \<noteq> []
          then (Inl (KijijiApiException msg (dump_path env)),
                s\<lparr>files := append_file (dump_path env) d (files s)\<rparr>)
          else (Inl (KijijiApiException msg []), s))"

section \<open>\<^verbatim>\<open>upload_image\<close>\<close>

definition image_upload_url :: string where
  "image_upload_url = ''https://www.kijiji.ca/p-upload-image.html''"

definition upload_request :: "string \<Rightarrow> string \<Rightarrow> request" where
  "upload_request token img_file =
     post_request image_upload_url Map.empty [(''file'', img_file)] [(''X-Ebay-Box-Token'', token)]"

text \<open>
  The inner loop \<^verbatim>\<open>for i in range(0, 3)\<close> over one image, on the values of \<open>i\<close> still
  to come. A \<^verbatim>\<open>ValueError\<close> of \<^verbatim>\<open>json.loads\<close> and a \<^verbatim>\<open>KeyError\<close> of the lookup are
  caught and the loop goes on; a success ends it (\<^verbatim>\<open>break\<close>); anything else escapes.
\<close>

fun upload_tries ::
  "env \<Rightarrow> string \<Rightarrow> string \<Rightarrow> nat list \<Rightarrow> json list \<Rightarrow> (state, json list) prog" where
  "upload_tries env token img_file [] image_urls = return image_urls"
| "upload_tries env token img_file (i # is) image_urls =
     bind (session_send env (upload_request token img_file)) (\<lambda>r.
     bind (raise_for_status r) (\<lambda>_.
       case json_loads env (resp_text r) of
         None \<Rightarrow>
           bind (print_line (''Image upload failed on try #'' @ show_nat (i + 1))) (\<lambda>_.
           upload_tries env token img_file is image_urls)
       | Some image_tree \<Rightarrow>
           (case getitem image_tree ''thumbnailUrl'' of
              Inr img_url \<Rightarrow>
                bind (print_line (''Image upload success on try #'' @ show_nat (i + 1))) (\<lambda>_.
                return (image_urls @ [img_url]))
            | Inl KeyError \<Rightarrow>
                bind (print_line (''Image upload failed on try #'' @ show_nat (i + 1))) (\<lambda>_.
                upload_tries env token img_file is image_urls)
            | Inl e \<Rightarrow> raise e)))"

text \<open>The outer loop \<^verbatim>\<open>for img_file in image_files\<close>.\<close>

fun upload_each ::
  "env \<Rightarrow> string \<Rightarrow> string list \<Rightarrow> json list \<Rightarrow> (state, json list) prog" where
  "upload_each env token [] image_urls = return image_urls"
| "upload_each env token (img_file # rest) image_urls =
     bind (upload_tries env token img_file (py_range 0 3) image_urls) (\<lambda>image_urls'.
     upload_each env token rest image_urls')"

definition upload_image :: "env \<Rightarrow> string \<Rightarrow> string list \<Rightarrow> (state, json list) prog" where
  "upload_image env token image_files =
     bind (upload_each env token image_files []) (\<lambda>image_urls.
     return (filter (\<lambda>image. image \<noteq> JNull) image_urls))"

section \<open>Regular expressions\<close>

text \<open>\<^verbatim>\<open>pattern.search(s)\<close>: the match at the leftmost position that has one; \<open>at\<close> is the
  pattern matched at the head of a string, giving group 1.\<close>

fun re_search :: "(string \<Rightarrow> string option) \<Rightarrow> string \<Rightarrow> string option" where
  "re_search at [] = at []"
| "re_search at (c # cs) =
     (case at (c # cs) of Some g \<Rightarrow> Some g | None \<Rightarrow> re_search at cs)"

text \<open>A greedy group followed by the character \<open>c\<close>, inside \<open>run\<close> (the longest text
  the group could take): the group ends before the last \<open>c\<close> of \<open>run\<close>.\<close>

definition greedy_upto :: "char \<Rightarrow> string \<Rightarrow> string option" where
  "greedy_upto c run =
     (if c \<in> set run then Some (rev (tl (dropWhile (\<lambda>x. x \<noteq> c) (rev run)))) else None)"

text \<open>\<^verbatim>\<open>window.__data=(.*);\<close>: the dot after \<^verbatim>\<open>window\<close> is any character but a newline,
  and the group runs to the last semicolon of the line.\<close>

definition window_data_at :: "string \<Rightarrow> string option" where
  "window_data_at s =
     (if starts_with ''window'' s
      then (case drop (length ''window'') s of
              [] \<Rightarrow> None
            | c # r \<Rightarrow>
                if c \<noteq> newline \<and> starts_with ''__data='' r
                then greedy_upto (CHR '';'')
                       (takeWhile (\<lambda>x. x \<noteq> newline) (drop (length ''__data='') r))
                else None)
      else None)"

text \<open>\<^verbatim>\<open>initialXsrfToken: '(\S+)'\<close>: the group is one or more characters that are not
  white space, up to the last quote of that run.\<close>

definition initial_xsrf_at :: "string \<Rightarrow> string option" where
  "initial_xsrf_at s =
     (if starts_with (''initialXsrfToken: '' @ [quote]) s
      then (case greedy_upto quote
                   (takeWhile (\<lambda>x. \<not> is_space x) (drop (length (''initialXsrfToken: '' @ [quote])) s)) of
              None \<Rightarrow> None
            | Some g \<Rightarrow> if g \<noteq> [] then Some g else None)
      else None)"

text \<open>\<^verbatim>\<open>kjrva=(\d+)\<close>: the group is the run of digits after \<^verbatim>\<open>kjrva=\<close>, at least one.\<close>

definition kjrva_at :: "string \<Rightarrow> string option" where
  "kjrva_at s =
     (if starts_with ''kjrva='' s
      then (let ds = takeWhile is_digit (drop (length ''kjrva='') s)
            in if ds \<noteq> [] then Some ds else None)
      else None)"

text \<open>
  \<^verbatim>\<open>Zoop\.init\(.*config: ({.+?}).*\);\<close> on a text without newlines. After
  \<^verbatim>\<open>Zoop.init(\<close>, the first \<^verbatim>\<open>.*\<close> is greedy, so the rightmost \<^verbatim>\<open>config: {\<close> that
  can be completed is taken; the group is lazy, so it closes at the first brace that leaves
  it at least one character; a \<^verbatim>\<open>);\<close> must follow somewhere.
\<close>

definition config_at :: "string \<Rightarrow> string option" where
  "config_at t =
     (if starts_with ''config: {'' t
      then (case drop (length ''config: {'') t of
              [] \<Rightarrow> None
            | b # bs \<Rightarrow>
                if CHR ''}'' \<in> set bs \<and> contains '');'' (tl (dropWhile (\<lambda>x. x \<noteq> CHR ''}'') bs))
                then Some (''{'' @ b # takeWhile (\<lambda>x. x \<noteq> CHR ''}'') bs @ ''}'')
                else None)
      else None)"

fun zoop_config :: "string \<Rightarrow> string option" where
  "zoop_config [] = None"
| "zoop_config (c # cs) =
     (case zoop_config cs of Some g \<Rightarrow> Some g | None \<Rightarrow> config_at (c # cs))"

definition zoop_at :: "string \<Rightarrow> string option" where
  "zoop_at s =
     (if starts_with ''Zoop.init('' s then zoop_config (drop (length ''Zoop.init('') s) else None)"

section \<open>The extractors\<close>

text \<open>\<^verbatim>\<open>soup.select("[name=...]")\<close>: the elements whose \<^verbatim>\<open>name\<close> attribute is the given
  one, in document order.\<close>

definition select_name :: "env \<Rightarrow> string \<Rightarrow> string \<Rightarrow> tag list" where
  "select_name env html attrib_name =
     filter (\<lambda>t. tag_attrs t ''name'' = Some attrib_name) (html_parser env html)"

definition get_token :: "env \<Rightarrow> string \<Rightarrow> string \<Rightarrow> (state, string) prog" where
  "get_token env html attrib_name =
     (case select_name env html attrib_name of
        [] \<Rightarrow>
          raise_api env
            (''Element with name attribute '' @ [quote] @ attrib_name @ [quote]
               @ '' not found in html text.'')
            (Some html)
      | r # _ \<Rightarrow>
          (case tag_attrs r ''value'' of None \<Rightarrow> raise KeyError | Some v \<Rightarrow> return v))"

text \<open>\<^verbatim>\<open>soup.find_all("script", {"src": False})\<close>: the script elements with no \<^verbatim>\<open>src\<close>
  attribute.\<close>

definition inline_scripts :: "env \<Rightarrow> string \<Rightarrow> tag list" where
  "inline_scripts env html =
     filter (\<lambda>t. tag_name t = ''script'' \<and> tag_attrs t ''src'' = None) (html_parser env html)"

definition loads :: "env \<Rightarrow> string \<Rightarrow> exn + json" where
  "loads env s = (case json_loads env s of None \<Rightarrow> Inl ValueError | Some v \<Rightarrow> Inr v)"

text \<open>
  The loop of \<^verbatim>\<open>get_kj_data\<close> over the inline scripts. The test \<^verbatim>\<open>if script:\<close> holds for
  every element, so each script's \<^verbatim>\<open>.string\<close> is searched; searching \<^verbatim>\<open>None\<close> is a
  \<^verbatim>\<open>TypeError\<close>.
\<close>

fun kj_data_loop :: "env \<Rightarrow> string \<Rightarrow> tag list \<Rightarrow> (state, json) prog" where
  "kj_data_loop env html [] =
     raise_api env ([quote] @ ''__data'' @ [quote] @ '' JSON object not found in html text.'')
       (Some html)"
| "kj_data_loop env html (script # rest) =
     (case tag_string script of
        None \<Rightarrow> raise TypeError
      | Some str \<Rightarrow>
          (case re_search window_data_at str of
             Some g \<Rightarrow> lift_result (loads env g)
           | None \<Rightarrow> kj_data_loop env html rest))"

definition get_kj_data :: "env \<Rightarrow> string \<Rightarrow> (state, json) prog" where
  "get_kj_data env html = kj_data_loop env html (inline_scripts env html)"

text \<open>The loop of \<^verbatim>\<open>get_xsrf_token\<close>; \<^verbatim>\<open>None.replace\<close> is an \<^verbatim>\<open>AttributeError\<close>.\<close>

fun xsrf_loop :: "env \<Rightarrow> string \<Rightarrow> tag list \<Rightarrow> (state, json) prog" where
  "xsrf_loop env html [] = raise_api env ''XSRF token not found in html text.'' (Some html)"
| "xsrf_loop env html (script # rest) =
     (case tag_string script of
        None \<Rightarrow> raise AttributeError
      | Some str \<Rightarrow>
          (case re_search zoop_at (replace [newline] [] str) of
             Some g \<Rightarrow>
               (case yaml_load env g of
                  None \<Rightarrow> raise YAMLError
                | Some v \<Rightarrow> lift_result (getitem v ''token''))
           | None \<Rightarrow> xsrf_loop env html rest))"

definition get_xsrf_token :: "env \<Rightarrow> string \<Rightarrow> (state, json) prog" where
  "get_xsrf_token env html = xsrf_loop env html (inline_scripts env html)"

section \<open>The client \<^verbatim>\<open>KijijiApi\<close>\<close>

subsection \<open>\<^verbatim>\<open>login\<close>, \<^verbatim>\<open>is_logged_in\<close>, \<^verbatim>\<open>logout\<close>\<close>

definition login_url :: string where
  "login_url = ''https://www.kijiji.ca/t-login.html''"

definition my_ads_probe_url :: string where
  "my_ads_probe_url = ''https://www.kijiji.ca/m-my-ads.html/''"

definition is_logged_in :: "env \<Rightarrow> (state, bool) prog" where
  "is_logged_in env =
     bind (session_get env my_ads_probe_url []) (\<lambda>resp.
     return (contains ''Sign Out'' (resp_text resp)))"

definition login_payload :: "string \<Rightarrow> string \<Rightarrow> string \<Rightarrow> json \<Rightarrow> (string \<rightharpoonup> json)" where
  "login_payload username password token target =
     [''emailOrNickname'' \<mapsto> JStr username,
      ''password'' \<mapsto> JStr password,
      ''rememberMe'' \<mapsto> JStr ''true'',
      ''_rememberMe'' \<mapsto> JStr ''on'',
      ''ca.kijiji.xsrf.token'' \<mapsto> JStr token,
      ''targetUrl'' \<mapsto> target]"

definition login :: "env \<Rightarrow> string \<Rightarrow> string \<Rightarrow> (state, unit) prog" where
  "login env username password =
     bind (session_get env login_url []) (\<lambda>resp.
     bind (get_token env (resp_text resp) ''ca.kijiji.xsrf.token'') (\<lambda>token.
     bind (get_kj_data env (resp_text resp)) (\<lambda>kj_data.
     bind (lift_result (getitem kj_data ''config'')) (\<lambda>config.
     bind (lift_result (getitem config ''targetUrl'')) (\<lambda>target.
     bind (session_post env login_url (login_payload username password token target) [] []) (\<lambda>resp.
     bind (is_logged_in env) (\<lambda>ok.
     if \<not> ok then raise_api env ''Could not log in.'' (Some (resp_text resp))
     else return ())))))))"

definition logout :: "env \<Rightarrow> (state, unit) prog" where
  "logout env =
     bind (session_get env ''https://www.kijiji.ca/m-logout.html'' []) (\<lambda>_. return ())"

subsection \<open>\<^verbatim>\<open>get_all_ads\<close>\<close>

definition ads_url :: string where
  "ads_url = ''https://www.kijiji.ca/my/ads.json''"

definition ranks_url :: string where
  "ranks_url = ''https://www.kijiji.ca/my/ranks''"

text \<open>\<^verbatim>\<open>[("ids", ad['id']) for ad in ads_info.values()]\<close>\<close>

fun id_params :: "json list \<Rightarrow> exn + (string \<times> json) list" where
  "id_params [] = Inr []"
| "id_params (ad # ads) =
     (case getitem ad ''id'' of
        Inl e \<Rightarrow> Inl e
      | Inr i \<Rightarrow> (case id_params ads of Inl e \<Rightarrow> Inl e | Inr ps \<Rightarrow> Inr ((''ids'', i) # ps)))"

text \<open>\<^verbatim>\<open>obj[key] = value\<close>: only a \<^verbatim>\<open>dict\<close> takes a string key; an existing key keeps its
  place, a new one goes last.\<close>

fun setitem :: "json \<Rightarrow> string \<Rightarrow> json \<Rightarrow> exn + json" where
  "setitem (JObj kvs) k v = Inr (JObj (AList.update k v kvs))"
| "setitem _ k v = Inl TypeError"

text \<open>The loop \<^verbatim>\<open>for ad_id, rank in ranks_json['ranks'].items(): ads_info[ad_id]['rank'] = rank\<close>;
  the ad's dictionary is changed in place, inside \<open>ads_info\<close>.\<close>

fun add_ranks :: "(string \<times> json) list \<Rightarrow> json \<Rightarrow> exn + json" where
  "add_ranks [] ads_info = Inr ads_info"
| "add_ranks ((ad_id, rank) # items) ads_info =
     (case getitem ads_info ad_id of
        Inl e \<Rightarrow> Inl e
      | Inr ad \<Rightarrow>
          (case setitem ad ''rank'' rank of
             Inl e \<Rightarrow> Inl e
           | Inr ad' \<Rightarrow>
               (case setitem ads_info ad_id ad' of
                  Inl e \<Rightarrow> Inl e
                | Inr ads_info' \<Rightarrow> add_ranks items ads_info')))"

definition get_all_ads :: "env \<Rightarrow> (state, json list) prog" where
  "get_all_ads env =
     bind (session_get env ads_url []) (\<lambda>resp.
     bind (raise_for_status resp) (\<lambda>_.
     bind (lift_result (loads env (resp_text resp))) (\<lambda>ads_json.
     bind (lift_result (getitem ads_json ''ads'')) (\<lambda>ads_info.
     bind (if truthy ads_info
           then
             bind (lift_result (dict_values ads_info)) (\<lambda>ads.
             bind (lift_result (id_params ads)) (\<lambda>params.
             bind (session_get env ranks_url params) (\<lambda>resp.
             bind (raise_for_status resp) (\<lambda>_.
             bind (lift_result (loads env (resp_text resp))) (\<lambda>ranks_json.
             bind (lift_result (getitem ranks_json ''ranks'')) (\<lambda>ranks.
             bind (lift_result (dict_items ranks)) (\<lambda>items.
             lift_result (add_ranks items ads_info))))))))
           else return ads_info) (\<lambda>ads_info.
     lift_result (dict_values ads_info))))))"

subsection \<open>\<^verbatim>\<open>delete_ad\<close>, \<^verbatim>\<open>delete_ad_using_title\<close>\<close>

definition my_ads_url :: string where
  "my_ads_url = ''https://www.kijiji.ca/m-my-ads.html''"

definition delete_url :: string where
  "delete_url = ''https://www.kijiji.ca/j-delete-ad.json''"

definition delete_ads_field :: "env \<Rightarrow> json \<Rightarrow> string" where
  \<open>delete_ads_field env ad_id =
     ''[{"adId":"'' @ str_of env ad_id @ ''","reason":"PREFER_NOT_TO_SAY","otherReason":""}]''\<close>

definition delete_params :: "env \<Rightarrow> json \<Rightarrow> json \<Rightarrow> (string \<rightharpoonup> json)" where
  "delete_params env ad_id token =
     [''Action'' \<mapsto> JStr ''DELETE_ADS'',
      ''Mode'' \<mapsto> JStr ''ACTIVE'',
      ''needsRedirect'' \<mapsto> JStr ''false'',
      ''ads'' \<mapsto> JStr (delete_ads_field env ad_id),
      ''ca.kijiji.xsrf.token'' \<mapsto> token]"

definition delete_ad :: "env \<Rightarrow> json \<Rightarrow> (state, unit) prog" where
  "delete_ad env ad_id =
     bind (session_get env my_ads_url []) (\<lambda>my_ads_page.
     bind (get_xsrf_token env (resp_text my_ads_page)) (\<lambda>token.
     bind (session_post env delete_url (delete_params env ad_id token) [] []) (\<lambda>resp.
     if \<not> contains ''OK'' (resp_text resp)
     then raise_api env ''Could not delete ad.'' (Some (resp_text resp))
     else return ())))"

text \<open>\<^verbatim>\<open>s.strip()\<close> on an object: only a string has it.\<close>

fun obj_strip :: "json \<Rightarrow> exn + string" where
  "obj_strip (JStr s) = Inr (strip s)"
| "obj_strip _ = Inl AttributeError"

text \<open>The comprehension
  \<^verbatim>\<open>[self.delete_ad(ad['id']) for ad in all_ads if ad['title'].strip() == title.strip()]\<close>:
  ad by ad, the test and then, when it holds, the deletion.\<close>

fun delete_matching :: "env \<Rightarrow> string \<Rightarrow> json list \<Rightarrow> (state, unit) prog" where
  "delete_matching env title [] = return ()"
| "delete_matching env title (ad # all_ads) =
     bind (lift_result (getitem ad ''title'')) (\<lambda>ad_title.
     bind (lift_result (obj_strip ad_title)) (\<lambda>stripped.
     if stripped = strip title
     then
       bind (lift_result (getitem ad ''id'')) (\<lambda>ad_id.
       bind (delete_ad env ad_id) (\<lambda>_.
       delete_matching env title all_ads))
     else delete_matching env title all_ads))"

definition delete_ad_using_title :: "env \<Rightarrow> string \<Rightarrow> (state, unit) prog" where
  "delete_ad_using_title env title =
     bind (get_all_ads env) (\<lambda>all_ads. delete_matching env title all_ads)"

subsection \<open>\<^verbatim>\<open>post_ad_using_data\<close>\<close>

text \<open>
  \<^verbatim>\<open>post_ad_using_data\<close> writes into the dictionary \<open>data\<close> its caller passed, so the
  caller's dictionary is part of the state it runs on: a pair of the dictionary and the
  module's state.
\<close>

definition on_session :: "(state, 'a) prog \<Rightarrow> ((string \<rightharpoonup> string) \<times> state, 'a) prog" where
  "on_session m = (\<lambda>(data, s). case m s of (r, s') \<Rightarrow> (r, (data, s')))"

definition data_set :: "string \<Rightarrow> string \<Rightarrow> ((string \<rightharpoonup> string) \<times> state, unit) prog" where
  "data_set k v = (\<lambda>(data, s). (Inr (), (data(k \<mapsto> v), s)))"

definition data_getitem :: "string \<Rightarrow> ((string \<rightharpoonup> string) \<times> state, string) prog" where
  "data_getitem k =
     (\<lambda>(data, s). case data k of None \<Rightarrow> (Inl KeyError, (data, s)) | Some v \<Rightarrow> (Inr v, (data, s)))"

definition data_get :: "string \<Rightarrow> string \<Rightarrow> ((string \<rightharpoonup> string) \<times> state, string) prog" where
  "data_get k dflt =
     (\<lambda>(data, s). (Inr (case data k of None \<Rightarrow> dflt | Some v \<Rightarrow> v), (data, s)))"

definition data_read :: "((string \<rightharpoonup> string) \<times> state, string \<rightharpoonup> string) prog" where
  "data_read = (\<lambda>(data, s). (Inr data, (data, s)))"

text \<open>\<^verbatim>\<open>",".join(image_list)\<close> takes strings only.\<close>

fun str_items :: "json list \<Rightarrow> exn + string list" where
  "str_items [] = Inr []"
| "str_items (JStr x # xs) =
     (case str_items xs of Inl e \<Rightarrow> Inl e | Inr ys \<Rightarrow> Inr (x # ys))"
| "str_items (_ # xs) = Inl TypeError"

definition post_ad_page_url :: string where
  "post_ad_page_url = ''https://www.kijiji.ca/p-admarkt-post-ad.html?categoryId=15''"

definition new_ad_url :: string where
  "new_ad_url = ''https://www.kijiji.ca/p-submit-ad.html''"

definition title_too_short :: string where
  "title_too_short = ''Your ad title is too short! (min 10 chars)''"

definition title_too_long :: string where
  "title_too_long = ''Your ad title is too long! (max 64 chars)''"

text \<open>Lines 168 to 186: the posting page, the upload token, the images, the two hidden
  tokens and the description.\<close>

definition post_ad_form :: "env \<Rightarrow> string list \<Rightarrow> ((string \<rightharpoonup> string) \<times> state, unit) prog" where
  "post_ad_form env image_files =
     bind (on_session (session_get env post_ad_page_url [])) (\<lambda>resp.
     bind (case re_search initial_xsrf_at (resp_text resp) of
             Some g \<Rightarrow> return g
           | None \<Rightarrow>
               on_session (raise_api env
                 ([quote] @ ''initialXsrfToken'' @ [quote] @ '' not found in html text.'')
                 (Some (resp_text resp)))) (\<lambda>image_upload_token.
     bind (on_session (upload_image env image_upload_token image_files)) (\<lambda>image_list.
     bind (lift_result (str_items image_list)) (\<lambda>image_strs.
     bind (data_set ''images'' (join '','' image_strs)) (\<lambda>_.
     bind (on_session (get_token env (resp_text resp) ''ca.kijiji.xsrf.token'')) (\<lambda>t1.
     bind (data_set ''ca.kijiji.xsrf.token'' t1) (\<lambda>_.
     bind (on_session (get_token env (resp_text resp) ''postAdForm.fraudToken'')) (\<lambda>t2.
     bind (data_set ''postAdForm.fraudToken'' t2) (\<lambda>_.
     bind (data_getitem ''postAdForm.description'') (\<lambda>description.
     data_set ''postAdForm.description''
       (replace [backslash, CHR ''n''] [newline] description)))))))))))"

text \<open>\<^verbatim>\<open>resp.headers[name]\<close>\<close>

definition ascii_lower :: "char \<Rightarrow> char" where
  "ascii_lower c =
     (case map_of (zip ''ABCDEFGHIJKLMNOPQRSTUVWXYZ'' ''abcdefghijklmnopqrstuvwxyz'') c of
        None \<Rightarrow> c
      | Some l \<Rightarrow> l)"

definition header_getitem :: "response \<Rightarrow> string \<Rightarrow> exn + string" where
  "header_getitem resp name =
     (case resp_headers resp (map ascii_lower name) of None \<Rightarrow> Inl KeyError | Some v \<Rightarrow> Inr v)"

text \<open>Lines 194 to 206: the submission and the ad id.\<close>

definition post_ad_submit :: "env \<Rightarrow> ((string \<rightharpoonup> string) \<times> state, string) prog" where
  "post_ad_submit env =
     bind data_read (\<lambda>data.
     bind (on_session (session_post env new_ad_url (map_option JStr \<circ> data) [] [])) (\<lambda>resp.
     bind (on_session (raise_for_status resp)) (\<lambda>_.
     if \<not> contains ''Delete Ad?'' (resp_text resp)
     then
       (if contains ''There was an issue posting your ad, please contact Customer Service.''
             (resp_text resp)
        then on_session (raise_api env ''Could not post ad; this user is banned.''
               (Some (resp_text resp)))
        else on_session (raise_api env ''Could not post ad.'' (Some (resp_text resp))))
     else
       bind (lift_result (header_getitem resp ''Set-Cookie'')) (\<lambda>cookie.
       (case re_search kjrva_at cookie of
          None \<Rightarrow> raise AttributeError
        | Some ad_id \<Rightarrow> return ad_id)))))"

definition post_ad_using_data ::
  "env \<Rightarrow> string list \<Rightarrow> ((string \<rightharpoonup> string) \<times> state, string) prog" where
  "post_ad_using_data env image_files =
     bind (post_ad_form env image_files) (\<lambda>_.
     bind (data_get ''postAdForm.title'' []) (\<lambda>title.
     if \<not> length title \<ge> 10 then on_session (raise_api env title_too_short None)
     else if length title > 64 then on_session (raise_api env title_too_long None)
     else post_ad_submit env))"

section \<open>Notions of the statements\<close>

text \<open>An upload attempt fails in the way the loop catches (the body is not JSON, or it is
  a dictionary without \<^verbatim>\<open>thumbnailUrl\<close>), or it yields a URL. \<open>after_tries\<close> is the state
  after the attempts on one image that printed the given lines.\<close>

definition ok_status :: "response \<Rightarrow> bool" where
  "ok_status r = (\<not> (400 \<le> status_code r \<and> status_code r < 600))"

definition attempt_fails :: "env \<Rightarrow> response \<Rightarrow> bool" where
  "attempt_fails env r =
     (ok_status r \<and>
      (case json_loads env (resp_text r) of
         None \<Rightarrow> True
       | Some image_tree \<Rightarrow> getitem image_tree ''thumbnailUrl'' = Inl KeyError))"

definition attempt_yields :: "env \<Rightarrow> response \<Rightarrow> json \<Rightarrow> bool" where
  "attempt_yields env r img_url =
     (ok_status r \<and>
      (case json_loads env (resp_text r) of
         None \<Rightarrow> False
       | Some image_tree \<Rightarrow> getitem image_tree ''thumbnailUrl'' = Inr img_url))"

definition failed_line :: "nat \<Rightarrow> string" where
  "failed_line i = ''Image upload failed on try #'' @ show_nat (i + 1)"

definition success_line :: "nat \<Rightarrow> string" where
  "success_line i = ''Image upload success on try #'' @ show_nat (i + 1)"

definition after_tries :: "request \<Rightarrow> string list \<Rightarrow> state \<Rightarrow> state" where
  "after_tries rq lines s =
     s\<lparr>sent := sent s @ replicate (length lines) rq, stdout := stdout s @ lines\<rparr>"

definition site_answers_uploads :: "env \<Rightarrow> bool" where
  "site_answers_uploads env =
     (\<forall>hist rq. \<exists>r. server env hist rq = Some r \<and>
        (attempt_fails env r \<or> (\<exists>u. attempt_yields env r u)))"

section \<open>Sample sites\<close>

text \<open>A site that answers the first upload with a page that is not JSON, the second with
  an empty dictionary, the third with a URL, the next three with empty dictionaries and
  every later one with a URL.\<close>

definition demo_upload_site :: "request list \<Rightarrow> request \<Rightarrow> response option" where
  \<open>demo_upload_site hist rq =
     Some \<lparr>status_code = 200,
           resp_text =
             (if length hist = 0 then ''<html>busy</html>''
              else if length hist = 2 then ''{"thumbnailUrl":"u1"}''
              else if 6 \<le> length hist then ''{"thumbnailUrl":"u3"}''
              else ''{}''),
           resp_headers = Map.empty\<rparr>\<close>

definition demo_json_loads :: "string \<Rightarrow> json option" where
  \<open>demo_json_loads t =
     (if t = ''{}'' then Some (JObj [])
      else if t = ''{"thumbnailUrl":"u1"}'' then Some (JObj [(''thumbnailUrl'', JStr ''u1'')])
      else if t = ''{"thumbnailUrl":"u3"}'' then Some (JObj [(''thumbnailUrl'', JStr ''u3'')])
      else None)\<close>

definition demo_upload_env :: env where
  "demo_upload_env =
     \<lparr>server = demo_upload_site, html_parser = (\<lambda>_. []), json_loads = demo_json_loads,
      yaml_load = (\<lambda>_. None), str_of = (\<lambda>_. []), strftime = ''20200101T000000''\<rparr>"

definition state0 :: state where
  "state0 = \<lparr>sent = [], files = Map.empty, stdout = []\<rparr>"

text \<open>A title the check of \<^verbatim>\<open>post_ad_using_data\<close> rejects: shorter than 10 characters
  (a missing title counts as empty) or longer than 64.\<close>

definition invalid_title :: "(string \<rightharpoonup> string) \<Rightarrow> bool" where
  "invalid_title data =
     (case data ''postAdForm.title'' of
        None \<Rightarrow> True
      | Some title \<Rightarrow> length title < 10 \<or> 64 < length title)"

text \<open>A site with a posting page that carries the upload token and the two hidden fields,
  an upload endpoint that answers with a URL, and a submission endpoint that answers with
  the success marker and the given headers; a parser that knows the posting page; and a
  sample ad.\<close>

definition demo_form_page :: string where
  \<open>demo_form_page =
     ''<script>initialXsrfToken: '' @ [quote] @ ''tok1'' @ [quote] @ '';</script>'' @
     ''<input name="ca.kijiji.xsrf.token" value="x1">'' @
     ''<input name="postAdForm.fraudToken" value="f1">''\<close>

definition demo_html_parser :: "string \<Rightarrow> tag list" where
  "demo_html_parser html =
     (if html = demo_form_page
      then [\<lparr>tag_name = ''script'', tag_attrs = Map.empty,
              tag_string = Some (''initialXsrfToken: '' @ [quote] @ ''tok1'' @ [quote] @ '';'')\<rparr>,
            \<lparr>tag_name = ''input'',
              tag_attrs = [''name'' \<mapsto> ''ca.kijiji.xsrf.token'', ''value'' \<mapsto> ''x1''],
              tag_string = None\<rparr>,
            \<lparr>tag_name = ''input'',
              tag_attrs = [''name'' \<mapsto> ''postAdForm.fraudToken'', ''value'' \<mapsto> ''f1''],
              tag_string = None\<rparr>]
      else [])"

definition demo_post_site ::
  "(string \<rightharpoonup> string) \<Rightarrow> request list \<Rightarrow> request \<Rightarrow> response option" where
  \<open>demo_post_site hdrs hist rq =
     (if req_url rq = post_ad_page_url
      then Some \<lparr>status_code = 200, resp_text = demo_form_page, resp_headers = Map.empty\<rparr>
      else if req_url rq = image_upload_url
      then Some \<lparr>status_code = 200, resp_text = ''{"thumbnailUrl":"u1"}'',
                  resp_headers = Map.empty\<rparr>
      else if req_url rq = new_ad_url
      then Some \<lparr>status_code = 200, resp_text = ''<h1>Delete Ad?</h1>'', resp_headers = hdrs\<rparr>
      else None)\<close>

definition demo_post_env :: "(string \<rightharpoonup> string) \<Rightarrow> env" where
  "demo_post_env hdrs =
     \<lparr>server = demo_post_site hdrs, html_parser = demo_html_parser,
      json_loads = demo_json_loads, yaml_load = (\<lambda>_. None), str_of = (\<lambda>_. []),
      strftime = ''20200101T000000''\<rparr>"

definition demo_description :: string where
  "demo_description = ''Line one'' @ [backslash, CHR ''n''] @ ''Line two''"

definition demo_ad :: "string \<Rightarrow> (string \<rightharpoonup> string)" where
  "demo_ad title =
     [''postAdForm.title'' \<mapsto> title, ''postAdForm.description'' \<mapsto> demo_description]"

definition demo_ad_untitled :: "string \<rightharpoonup> string" where
  "demo_ad_untitled = [''postAdForm.description'' \<mapsto> demo_description]"

definition demo_cookie :: "string \<rightharpoonup> string" where
  "demo_cookie = [''set-cookie'' \<mapsto> ''kjrva=123456; Path=/'']"


text \<open>Sample pages, with the elements a parser gives for each: two inputs named \<open>t\<close> of
  which only the second has a value; an empty inline script; an inline script with a
  statement after the data on the same line; a page whose third script holds the data on a
  line of its own; a page with one script that does not match; and a page without
  scripts or inputs.\<close>

definition demo_two_inputs :: string where
  \<open>demo_two_inputs = ''<input name="t"><input name="t" value="v">''\<close>

definition demo_empty_script :: string where
  \<open>demo_empty_script = ''<script></script>''\<close>

definition demo_data_script :: string where
  \<open>demo_data_script = ''<script>window.__data={"a":1};var x=2;</script>''\<close>

definition demo_good_script :: string where
  \<open>demo_good_script =
     ''var w=0;'' @ [newline] @ ''window.__data={"a":1};'' @ [newline] @ ''var x=2;''\<close>

definition demo_good_page :: string where
  \<open>demo_good_page =
     ''<script src="/app.js"></script><script>var y=1;</script><script>'' @ demo_good_script
       @ ''</script>''\<close>

definition demo_other_page :: string where
  \<open>demo_other_page = ''<script>var y=1;</script>''\<close>



definition demo_scrape_parser :: "string \<Rightarrow> tag list" where
  \<open>demo_scrape_parser html =
     (if html = demo_two_inputs
      then [\<lparr>tag_name = ''input'', tag_attrs = [''name'' \<mapsto> ''t''], tag_string = None\<rparr>,
            \<lparr>tag_name = ''input'', tag_attrs = [''name'' \<mapsto> ''t'', ''value'' \<mapsto> ''v''],
              tag_string = None\<rparr>]
      else if html = demo_empty_script
      then [\<lparr>tag_name = ''script'', tag_attrs = Map.empty, tag_string = None\<rparr>]
      else if html = demo_data_script
      then [\<lparr>tag_name = ''script'', tag_attrs = Map.empty,
              tag_string = Some ''window.__data={"a":1};var x=2;''\<rparr>]
      else if html = demo_good_page
      then [\<lparr>tag_name = ''script'', tag_attrs = [''src'' \<mapsto> ''/app.js''], tag_string = None\<rparr>,
            \<lparr>tag_name = ''script'', tag_attrs = Map.empty, tag_string = Some ''var y=1;''\<rparr>,
            \<lparr>tag_name = ''script'', tag_attrs = Map.empty, tag_string = Some demo_good_script\<rparr>]
      else if html = demo_other_page
      then [\<lparr>tag_name = ''script'', tag_attrs = Map.empty, tag_string = Some ''var y=1;''\<rparr>]
      else [])\<close>

definition demo_scrape_loads :: "string \<Rightarrow> json option" where
  \<open>demo_scrape_loads t = (if t = ''{"a":1}'' then Some (JObj [(''a'', JInt 1)]) else None)\<close>

definition demo_scrape_env :: env where
  "demo_scrape_env =
     \<lparr>server = (\<lambda>_ _. None), html_parser = demo_scrape_parser, json_loads = demo_scrape_loads,
      yaml_load = (\<lambda>_. None), str_of = (\<lambda>_. []), strftime = ''20200101T000000''\<rparr>"

text \<open>The message of the exception \<^verbatim>\<open>login\<close> raises.\<close>

definition login_failed_message :: string where
  "login_failed_message = ''Could not log in.''"

text \<open>A login page with the hidden token and the page data, and its elements.\<close>

definition demo_login_script :: string where
  \<open>demo_login_script = ''window.__data={"config":{"targetUrl":"/home"}};''\<close>

definition demo_login_page :: string where
  \<open>demo_login_page =
     ''<input name="ca.kijiji.xsrf.token" value="x1"><script>'' @ demo_login_script @ ''</script>''\<close>

definition demo_login_parser :: "string \<Rightarrow> tag list" where
  "demo_login_parser html =
     (if html = demo_login_page
      then [\<lparr>tag_name = ''input'',
              tag_attrs = [''name'' \<mapsto> ''ca.kijiji.xsrf.token'', ''value'' \<mapsto> ''x1''],
              tag_string = None\<rparr>,
            \<lparr>tag_name = ''script'', tag_attrs = Map.empty, tag_string = Some demo_login_script\<rparr>]
      else [])"

definition demo_login_loads :: "string \<Rightarrow> json option" where
  \<open>demo_login_loads t =
     (if t = ''{"config":{"targetUrl":"/home"}}''
      then Some (JObj [(''config'', JObj [(''targetUrl'', JStr ''/home'')])])
      else None)\<close>

text \<open>A site that serves the login page, answers the login POST with the given body and
  the probe of the ads page with the given text.\<close>

definition demo_login_site :: "string \<Rightarrow> string \<Rightarrow> request list \<Rightarrow> request \<Rightarrow> response option" where
  "demo_login_site body ads_text hist rq =
     (if req_url rq = login_url
      then (case req_method rq of
              GET \<Rightarrow> Some \<lparr>status_code = 200, resp_text = demo_login_page, resp_headers = Map.empty\<rparr>
            | POST \<Rightarrow> Some \<lparr>status_code = 200, resp_text = body, resp_headers = Map.empty\<rparr>)
      else if req_url rq = my_ads_probe_url
      then Some \<lparr>status_code = 200, resp_text = ads_text, resp_headers = Map.empty\<rparr>
      else None)"

definition demo_login_env :: "string \<Rightarrow> string \<Rightarrow> env" where
  "demo_login_env body ads_text =
     \<lparr>server = demo_login_site body ads_text, html_parser = demo_login_parser,
      json_loads = demo_login_loads, yaml_load = (\<lambda>_. None), str_of = (\<lambda>_. []),
      strftime = ''20200101T000000''\<rparr>"

text \<open>An ad of the ad map with its rank merged: the record at a key for which the ranks
  endpoint gave a rank gets that rank under \<^verbatim>\<open>rank\<close>; the others are unchanged.\<close>

definition with_rank :: "(string \<times> json) list \<Rightarrow> string \<times> json \<Rightarrow> json" where
  "with_rank ranks =
     (\<lambda>(ad_id, ad).
        case map_of ranks ad_id of
          None \<Rightarrow> ad
        | Some rank \<Rightarrow> (case setitem ad ''rank'' rank of Inr ad' \<Rightarrow> ad' | Inl _ \<Rightarrow> ad))"

text \<open>A site with three ads, two of them titled \<^verbatim>\<open>Foo\<close> up to a trailing space, ranks for
  two of them, an ads management page with the inline configuration, and a delete endpoint
  that answers \<^verbatim>\<open>OK\<close>.\<close>

definition demo_ads_text :: string where
  \<open>demo_ads_text =
     ''{"ads":{"101":{"id":101,"title":"Foo"},"102":{"id":102,"title":"Foo "},"103":{"id":103,"title":"Bar"}}}''\<close>

definition demo_no_ads_text :: string where
  \<open>demo_no_ads_text = ''{"ads":{}}''\<close>

definition demo_ranks_text :: string where
  \<open>demo_ranks_text = ''{"ranks":{"101":1,"103":2}}''\<close>

definition demo_ads :: "(string \<times> json) list" where
  "demo_ads =
     [(''101'', JObj [(''id'', JInt 101), (''title'', JStr ''Foo'')]),
      (''102'', JObj [(''id'', JInt 102), (''title'', JStr ''Foo '')]),
      (''103'', JObj [(''id'', JInt 103), (''title'', JStr ''Bar'')])]"

definition demo_ads_loads :: "string \<Rightarrow> json option" where
  "demo_ads_loads t =
     (if t = demo_ads_text then Some (JObj [(''ads'', JObj demo_ads)])
      else if t = demo_no_ads_text then Some (JObj [(''ads'', JObj [])])
      else if t = demo_ranks_text
      then Some (JObj [(''ranks'', JObj [(''101'', JInt 1), (''103'', JInt 2)])])
      else None)"

definition demo_zoop_script :: string where
  \<open>demo_zoop_script = ''Zoop.init({name: "ads", config: {token: "zt1"}});''\<close>

definition demo_my_ads_page :: string where
  "demo_my_ads_page = ''<script>'' @ demo_zoop_script @ ''</script>''"

definition demo_ads_parser :: "string \<Rightarrow> tag list" where
  "demo_ads_parser html =
     (if html = demo_my_ads_page
      then [\<lparr>tag_name = ''script'', tag_attrs = Map.empty, tag_string = Some demo_zoop_script\<rparr>]
      else [])"

definition demo_yaml_load :: "string \<Rightarrow> json option" where
  \<open>demo_yaml_load t =
     (if t = ''{token: "zt1"}'' then Some (JObj [(''token'', JStr ''zt1'')]) else None)\<close>

definition demo_str_of :: "json \<Rightarrow> string" where
  "demo_str_of j = (case j of JInt n \<Rightarrow> show_nat (nat n) | JStr s \<Rightarrow> s | _ \<Rightarrow> [])"

definition demo_ads_site :: "string \<Rightarrow> request list \<Rightarrow> request \<Rightarrow> response option" where
  \<open>demo_ads_site ads_text hist rq =
     (if req_url rq = ads_url
      then Some \<lparr>status_code = 200, resp_text = ads_text, resp_headers = Map.empty\<rparr>
      else if req_url rq = ranks_url
      then Some \<lparr>status_code = 200, resp_text = demo_ranks_text, resp_headers = Map.empty\<rparr>
      else if req_url rq = my_ads_url
      then Some \<lparr>status_code = 200, resp_text = demo_my_ads_page, resp_headers = Map.empty\<rparr>
      else if req_url rq = delete_url
      then Some \<lparr>status_code = 200, resp_text = ''{"status":"OK"}'', resp_headers = Map.empty\<rparr>
      else None)\<close>

definition demo_ads_env :: "string \<Rightarrow> env" where
  "demo_ads_env ads_text =
     \<lparr>server = demo_ads_site ads_text, html_parser = demo_ads_parser,
      json_loads = demo_ads_loads, yaml_load = demo_yaml_load, str_of = demo_str_of,
      strftime = ''20200101T000000''\<rparr>"

text \<open>A site on which every deletion succeeds: the management page is served and yields a
  token, and the delete POST is answered with \<^verbatim>\<open>OK\<close>. \<open>deleted_ads\<close> reads, from a list
  of requests, the \<^verbatim>\<open>ads\<close> field of each POST to the delete endpoint.\<close>

definition deletes_succeed :: "env \<Rightarrow> bool" where
  "deletes_succeed env =
     (\<forall>hist ad_id. \<exists>page token resp.
        server env hist (get_request my_ads_url []) = Some page \<and>
        (\<forall>s. get_xsrf_token env (resp_text page) s = (Inr token, s)) \<and>
        server env (hist @ [get_request my_ads_url []])
          (post_request delete_url (delete_params env ad_id token) [] []) = Some resp \<and>
        contains ''OK'' (resp_text resp))"

definition deleted_ads :: "request list \<Rightarrow> json option list" where
  "deleted_ads rqs = map (\<lambda>rq. req_data rq ''ads'') (filter (\<lambda>rq. req_url rq = delete_url) rqs)"

definition title_matches :: "string \<Rightarrow> string \<times> json \<Rightarrow> bool" where
  "title_matches title = (\<lambda>(ad_title, ad_id). strip ad_title = strip title)"

section \<open>Properties\<close>

subsection \<open>Running a computation\<close>

declare upload_tries.simps [simp del]

lemma bind_simps [simp]:
  "bind (return x) f s = f x s"
  "bind (raise e) f s = (Inl e, s)"
  "bind (lift_result (Inr x)) f s = f x s"
  "bind (lift_result (Inl e)) f s = (Inl e, s)"
  by (simp_all add: bind_def return_def raise_def lift_result_def)

lemma step_simps:
  "bind (session_send env rq) f s =
     (case server env (sent s) rq of
        None \<Rightarrow> (Inl RequestException, s\<lparr>sent := sent s @ [rq]\<rparr>)
      | Some r \<Rightarrow> f r (s\<lparr>sent := sent s @ [rq]\<rparr>))"
  "bind (raise_for_status r) g s =
     (if 400 \<le> status_code r \<and> status_code r < 600 then (Inl HTTPError, s) else g () s)"
  "bind (print_line msg) g s = g () (s\<lparr>stdout := stdout s @ [msg]\<rparr>)"
  by (simp_all add: bind_def session_send_def raise_for_status_def print_line_def return_def
      raise_def split: option.splits)

subsection \<open>The upload loops\<close>

lemma upload_tries_fail_step:
  assumes "server env (sent s) (upload_request token img) = Some r" "attempt_fails env r"
  shows "upload_tries env token img (i # is) urls s =
         upload_tries env token img is urls
           (s\<lparr>sent := sent s @ [upload_request token img], stdout := stdout s @ [failed_line i]\<rparr>)"
  using assms
  by (auto simp: upload_tries.simps step_simps attempt_fails_def ok_status_def failed_line_def
      split: option.splits)

lemma upload_tries_success_step:
  assumes "server env (sent s) (upload_request token img) = Some r" "attempt_yields env r u"
  shows "upload_tries env token img (i # is) urls s =
         (Inr (urls @ [u]),
           s\<lparr>sent := sent s @ [upload_request token img], stdout := stdout s @ [success_line i]\<rparr>)"
  using assms
  by (auto simp: upload_tries.simps step_simps attempt_yields_def ok_status_def success_line_def return_def
      split: option.splits)

lemma upload_tries_all_fail:
  assumes "\<forall>j<length is. \<exists>r. server env (sent s @ replicate j (upload_request token img))
             (upload_request token img) = Some r \<and> attempt_fails env r"
  shows "upload_tries env token img is urls s =
         (Inr urls, after_tries (upload_request token img) (map failed_line is) s)"
  using assms
proof (induction "is" arbitrary: s)
  case Nil
  then show ?case by (simp add: upload_tries.simps return_def after_tries_def)
next
  case (Cons i "is")
  let ?rq = "upload_request token img"
  let ?s1 = "s\<lparr>sent := sent s @ [?rq], stdout := stdout s @ [failed_line i]\<rparr>"
  from Cons.prems have "\<exists>r. server env (sent s @ replicate 0 ?rq) ?rq = Some r \<and> attempt_fails env r"
    by blast
  then obtain r where r: "server env (sent s) ?rq = Some r" "attempt_fails env r" by auto
  have "\<forall>j<length is. \<exists>r. server env (sent ?s1 @ replicate j ?rq) ?rq = Some r \<and> attempt_fails env r"
  proof (intro allI impI)
    fix j assume "j < length is"
    then have "Suc j < length (i # is)" by simp
    with Cons.prems have "\<exists>r. server env (sent s @ replicate (Suc j) ?rq) ?rq = Some r \<and> attempt_fails env r"
      by blast
    then show "\<exists>r. server env (sent ?s1 @ replicate j ?rq) ?rq = Some r \<and> attempt_fails env r"
      by simp
  qed
  from Cons.IH [OF this] upload_tries_fail_step [OF r]
  show ?case by (simp add: after_tries_def)
qed

lemma upload_tries_fail_then_success:
  assumes "\<forall>j<length pre. \<exists>r. server env (sent s @ replicate j (upload_request token img))
             (upload_request token img) = Some r \<and> attempt_fails env r"
    and "server env (sent s @ replicate (length pre) (upload_request token img))
             (upload_request token img) = Some r" "attempt_yields env r u"
  shows "upload_tries env token img (pre @ i # post) urls s =
         (Inr (urls @ [u]),
          after_tries (upload_request token img) (map failed_line pre @ [success_line i]) s)"
  using assms
proof (induction pre arbitrary: s)
  case Nil
  then show ?case using upload_tries_success_step [of env s token img r u]
    by (simp add: after_tries_def)
next
  case (Cons p pre)
  let ?rq = "upload_request token img"
  let ?s1 = "s\<lparr>sent := sent s @ [?rq], stdout := stdout s @ [failed_line p]\<rparr>"
  from Cons.prems(1) have "\<exists>r. server env (sent s @ replicate 0 ?rq) ?rq = Some r \<and> attempt_fails env r"
    by blast
  then obtain r0 where r0: "server env (sent s) ?rq = Some r0" "attempt_fails env r0" by auto
  have a: "\<forall>j<length pre. \<exists>r. server env (sent ?s1 @ replicate j ?rq) ?rq = Some r \<and> attempt_fails env r"
  proof (intro allI impI)
    fix j assume "j < length pre"
    then have "Suc j < length (p # pre)" by simp
    with Cons.prems(1) have "\<exists>r. server env (sent s @ replicate (Suc j) ?rq) ?rq = Some r \<and> attempt_fails env r"
      by blast
    then show "\<exists>r. server env (sent ?s1 @ replicate j ?rq) ?rq = Some r \<and> attempt_fails env r"
      by simp
  qed
  have b: "server env (sent ?s1 @ replicate (length pre) ?rq) ?rq = Some r"
    using Cons.prems(2) by simp
  from Cons.IH [OF a b Cons.prems(3)] upload_tries_fail_step [OF r0]
  show ?case by (simp add: after_tries_def)
qed

lemma upload_tries_acc:
  "upload_tries env token img is acc s =
     (case upload_tries env token img is [] s of
        (Inl e, s') \<Rightarrow> (Inl e, s')
      | (Inr us, s') \<Rightarrow> (Inr (acc @ us), s'))"
proof (induction "is" arbitrary: s)
  case Nil
  then show ?case by (simp add: upload_tries.simps return_def)
next
  case (Cons i "is")
  note ih = Cons.IH
  show ?case
    apply (simp add: upload_tries.simps step_simps return_def raise_def split: option.splits sum.splits exn.splits)
    apply (intro allI impI conjI)
    apply (subst ih, simp split: prod.splits sum.splits)+
    done
qed

lemma length_py_range [simp]: "length (py_range a b) = b - a"
  by (simp add: py_range_def)

lemma upload_each_acc:
  "upload_each env token imgs acc s =
     (case upload_each env token imgs [] s of
        (Inl e, s') \<Rightarrow> (Inl e, s')
      | (Inr us, s') \<Rightarrow> (Inr (acc @ us), s'))"
proof (induction imgs arbitrary: acc s)
  case Nil
  then show ?case by (simp add: return_def)
next
  case (Cons img imgs)
  show ?case
    apply (simp add: bind_def)
    apply (subst upload_tries_acc)
    apply (subst (2) Cons.IH)
    apply (subst Cons.IH)
    apply (simp split: prod.splits sum.splits)
    done
qed

lemma upload_each_append:
  "upload_each env token (xs @ ys) acc s =
     bind (upload_each env token xs acc) (\<lambda>acc'. upload_each env token ys acc') s"
  by (induction xs arbitrary: acc s) (simp_all add: bind_def return_def split: prod.splits sum.splits)

lemma upload_image_split:
  assumes "upload_each env token before [] s = (Inr us1, s1)"
    and "upload_tries env token img (py_range 0 3) [] s1 = (Inr us, s2)"
    and "upload_image env token rest s2 = (Inr urls2, s')"
  shows "upload_image env token (before @ img # rest) s =
         (Inr (filter (\<lambda>image. image \<noteq> JNull) us1 @ filter (\<lambda>image. image \<noteq> JNull) us @ urls2), s')"
proof -
  from assms(3) obtain us2 where us2: "upload_each env token rest [] s2 = (Inr us2, s')"
    "urls2 = filter (\<lambda>image. image \<noteq> JNull) us2"
    by (auto simp: upload_image_def bind_def return_def split: prod.splits sum.splits)
  have t: "upload_tries env token img (py_range 0 3) us1 s1 = (Inr (us1 @ us), s2)"
    by (subst upload_tries_acc) (simp add: assms(2))
  have r: "upload_each env token rest (us1 @ us) s2 = (Inr ((us1 @ us) @ us2), s')"
    by (subst upload_each_acc) (simp add: us2)
  have "upload_each env token (before @ img # rest) [] s = (Inr ((us1 @ us) @ us2), s')"
    by (simp add: upload_each_append bind_def assms(1) t r)
  then show ?thesis by (simp add: upload_image_def bind_def return_def us2)
qed

lemma upload_image_Inr:
  "upload_image env token imgs s = (Inr urls, s') \<longleftrightarrow>
     (\<exists>us. upload_each env token imgs [] s = (Inr us, s') \<and> urls = filter (\<lambda>image. image \<noteq> JNull) us)"
  by (auto simp: upload_image_def bind_def return_def split: prod.splits sum.splits)

lemma upload_tries_sent:
  "\<exists>new. sent (snd (upload_tries env token img is acc s)) = sent s @ new \<and>
         length new \<le> length is \<and> set new \<subseteq> {upload_request token img}"
proof (induction "is" arbitrary: s)
  case Nil
  then show ?case by (simp add: upload_tries.simps return_def)
next
  case (Cons i "is")
  let ?rq = "upload_request token img"
  have ext: "\<exists>new. sent (snd (upload_tries env token img is acc s1)) = sent s @ new \<and>
         length new \<le> Suc (length is) \<and> set new \<subseteq> {?rq}"
    if "sent s1 = sent s @ [?rq]" for s1
  proof -
    from Cons.IH [of s1] obtain new where
      "sent (snd (upload_tries env token img is acc s1)) = sent s1 @ new"
      "length new \<le> length is" "set new \<subseteq> {?rq}" by blast
    with that show ?thesis by (intro exI [of _ "?rq # new"]) simp
  qed
  have one: "\<exists>new. sent s @ [?rq] = sent s @ new \<and> length new \<le> Suc (length is) \<and> set new \<subseteq> {?rq}"
    by (intro exI [of _ "[?rq]"]) simp
  show ?case
    using one
    by (auto simp: upload_tries.simps step_simps return_def raise_def split: option.splits sum.splits exn.splits
        intro!: ext)
qed

lemma upload_tries_length:
  "upload_tries env token img is acc s = (Inr us, s') \<Longrightarrow> length us \<le> Suc (length acc)"
  by (induction "is" arbitrary: s)
    (auto simp: upload_tries.simps step_simps return_def raise_def split: option.splits sum.splits exn.splits if_splits)

lemma upload_each_length:
  "upload_each env token imgs acc s = (Inr us, s') \<Longrightarrow> length us \<le> length acc + length imgs"
proof (induction imgs arbitrary: acc s)
  case Nil
  then show ?case by (simp add: return_def)
next
  case (Cons img imgs)
  from Cons.prems obtain a s1 where
    a: "upload_tries env token img (py_range 0 3) acc s = (Inr a, s1)"
    and b: "upload_each env token imgs a s1 = (Inr us, s')"
    by (auto simp: bind_def split: prod.splits sum.splits)
  from upload_tries_length [OF a] Cons.IH [OF b] show ?case by simp
qed

lemma upload_each_sent:
  "\<exists>new. sent (snd (upload_each env token imgs acc s)) = sent s @ new \<and>
         length new \<le> 3 * length imgs \<and> set new \<subseteq> upload_request token ` set imgs"
proof (induction imgs arbitrary: acc s)
  case Nil
  then show ?case by (simp add: return_def)
next
  case (Cons img imgs)
  obtain r s1 where t: "upload_tries env token img (py_range 0 3) acc s = (r, s1)"
    by (cases "upload_tries env token img (py_range 0 3) acc s")
  from upload_tries_sent [of env token img "(py_range 0 3)" acc s] t obtain n1 where
    n1: "sent s1 = sent s @ n1" "length n1 \<le> 3" "set n1 \<subseteq> {upload_request token img}"
    by auto
  show ?case
  proof (cases r)
    case (Inl e)
    with t n1 show ?thesis
      by (intro exI [of _ n1]) (auto simp: bind_def)
  next
    case (Inr a)
    from Cons.IH [of a s1] obtain n2 where
      n2: "sent (snd (upload_each env token imgs a s1)) = sent s1 @ n2"
      "length n2 \<le> 3 * length imgs" "set n2 \<subseteq> upload_request token ` set imgs" by blast
    with t n1 Inr show ?thesis
      by (intro exI [of _ "n1 @ n2"]) (auto simp: bind_def)
  qed
qed

lemma upload_image_sent:
  "sent (snd (upload_image env token imgs s)) = sent (snd (upload_each env token imgs [] s))"
  by (simp add: upload_image_def bind_def return_def split: prod.splits sum.splits)

lemma upload_tries_returns:
  assumes "site_answers_uploads env"
  shows "\<exists>us s'. upload_tries env token img is acc s = (Inr us, s')"
proof (induction "is" arbitrary: s)
  case Nil
  then show ?case by (simp add: upload_tries.simps return_def)
next
  case (Cons i "is")
  from assms obtain r where r: "server env (sent s) (upload_request token img) = Some r"
    "attempt_fails env r \<or> (\<exists>u. attempt_yields env r u)"
    unfolding site_answers_uploads_def by blast
  from r(2) show ?case
  proof
    assume "attempt_fails env r"
    from upload_tries_fail_step [OF r(1) this] Cons.IH show ?thesis by simp
  next
    assume "\<exists>u. attempt_yields env r u"
    then obtain u where "attempt_yields env r u" ..
    from upload_tries_success_step [OF r(1) this] show ?thesis by simp
  qed
qed

lemma upload_each_returns:
  assumes "site_answers_uploads env"
  shows "\<exists>us s'. upload_each env token imgs acc s = (Inr us, s')"
proof (induction imgs arbitrary: acc s)
  case Nil
  then show ?case by (simp add: return_def)
next
  case (Cons img imgs)
  from upload_tries_returns [OF assms] obtain a s1 where
    "upload_tries env token img (py_range 0 3) acc s = (Inr a, s1)" by blast
  with Cons.IH [of a s1] show ?case by (simp add: bind_def)
qed

lemma upload_tries_sent_replicate:
  "\<exists>n\<le>length is. sent (snd (upload_tries env token img is acc s)) =
        sent s @ replicate n (upload_request token img)"
proof -
  from upload_tries_sent [of env token img "is" acc s] obtain new where
    n: "sent (snd (upload_tries env token img is acc s)) = sent s @ new"
    "length new \<le> length is" "set new \<subseteq> {upload_request token img}" by blast
  from n(3) have "replicate (length new) (upload_request token img) = new"
    by (intro replicate_length_same) auto
  with n(1,2) show ?thesis by (intro exI [of _ "length new"]) simp
qed

lemma upload_each_sent_blocks:
  "\<exists>ns. length ns \<le> length imgs \<and> (\<forall>n\<in>set ns. n \<le> 3) \<and>
        sent (snd (upload_each env token imgs acc s)) =
          sent s @ concat (map (\<lambda>(n, img). replicate n (upload_request token img)) (zip ns imgs))"
proof (induction imgs arbitrary: acc s)
  case Nil
  then show ?case by (simp add: return_def)
next
  case (Cons img imgs)
  obtain r s1 where t: "upload_tries env token img (py_range 0 3) acc s = (r, s1)"
    by (cases "upload_tries env token img (py_range 0 3) acc s")
  from upload_tries_sent_replicate [of "py_range 0 3" env token img acc s] t obtain n1 where
    n1: "n1 \<le> 3" "sent s1 = sent s @ replicate n1 (upload_request token img)"
    by auto
  show ?case
  proof (cases r)
    case (Inl e)
    with t n1 show ?thesis
      by (intro exI [of _ "[n1]"]) (auto simp: bind_def)
  next
    case (Inr a)
    from Cons.IH [of a s1] obtain ns where
      ns: "length ns \<le> length imgs" "\<forall>n\<in>set ns. n \<le> 3"
      "sent (snd (upload_each env token imgs a s1)) =
         sent s1 @ concat (map (\<lambda>(n, img). replicate n (upload_request token img)) (zip ns imgs))"
      by blast
    with t n1 Inr show ?thesis
      by (intro exI [of _ "n1 # ns"]) (auto simp: bind_def)
  qed
qed

text \<open>
  C1. The images are taken in order, each at most three times. For the image \<open>img\<close> that
  follows the images \<open>before\<close>: when its first \<open>k < 3\<close> attempts fail with a JSON or
  missing-key error and the next one yields \<open>u\<close>, no further attempt is made for it and
  \<open>u\<close> (unless null) stands in the result between the URLs of the images before and after
  it; when all three attempts fail so, it contributes nothing and the call returns the
  URLs of the other images. A returned list has no null entry and at most one URL per
  image; the requests sent are, image by image, at most three uploads of that image; and
  against a site whose every answer is such a failure or a success the call returns.
\<close>

theorem upload_image_retries:
  "(k < 3 \<and>
    (\<forall>j<k. \<exists>r. server env (sent s1 @ replicate j (upload_request token img))
                  (upload_request token img) = Some r \<and> attempt_fails env r) \<and>
    (\<exists>r. server env (sent s1 @ replicate k (upload_request token img))
            (upload_request token img) = Some r \<and> attempt_yields env r u) \<and>
    upload_image env token before s = (Inr urls1, s1) \<and>
    upload_image env token rest
      (after_tries (upload_request token img) (map failed_line [0..<k] @ [success_line k]) s1)
      = (Inr urls2, s')
    \<longrightarrow> upload_image env token (before @ img # rest) s
          = (Inr (urls1 @ filter (\<lambda>image. image \<noteq> JNull) [u] @ urls2), s'))
   \<and>
   ((\<forall>j<3. \<exists>r. server env (sent s1 @ replicate j (upload_request token img))
                  (upload_request token img) = Some r \<and> attempt_fails env r) \<and>
    upload_image env token before s = (Inr urls1, s1) \<and>
    upload_image env token rest
      (after_tries (upload_request token img) (map failed_line [0..<3]) s1) = (Inr urls2, s'')
    \<longrightarrow> upload_image env token (before @ img # rest) s = (Inr (urls1 @ urls2), s''))
   \<and>
   (upload_image env token imgs s = (Inr urls, t) \<longrightarrow>
      JNull \<notin> set urls \<and> length urls \<le> length imgs)
   \<and>
   (\<exists>ns. length ns \<le> length imgs \<and> (\<forall>n\<in>set ns. n \<le> 3) \<and>
      sent (snd (upload_image env token imgs s)) =
        sent s @ concat (map (\<lambda>(n, img). replicate n (upload_request token img)) (zip ns imgs)))
   \<and>
   (site_answers_uploads env \<longrightarrow> (\<exists>urls t. upload_image env token imgs s = (Inr urls, t)))"
proof (intro conjI impI)
  let ?rq = "upload_request token img"
  assume a: "k < 3 \<and>
    (\<forall>j<k. \<exists>r. server env (sent s1 @ replicate j ?rq) ?rq = Some r \<and> attempt_fails env r) \<and>
    (\<exists>r. server env (sent s1 @ replicate k ?rq) ?rq = Some r \<and> attempt_yields env r u) \<and>
    upload_image env token before s = (Inr urls1, s1) \<and>
    upload_image env token rest
      (after_tries ?rq (map failed_line [0..<k] @ [success_line k]) s1) = (Inr urls2, s')"
  then obtain r where r: "server env (sent s1 @ replicate k ?rq) ?rq = Some r"
    "attempt_yields env r u" by blast
  from a obtain us1 where us1: "upload_each env token before [] s = (Inr us1, s1)"
    "urls1 = filter (\<lambda>image. image \<noteq> JNull) us1"
    by (auto simp: upload_image_Inr)
  have split: "py_range 0 3 = [0..<k] @ k # [Suc k..<3]"
  proof -
    from a have "k = 0 \<or> k = 1 \<or> k = 2" by arith
    then show ?thesis by (auto simp: py_range_def numeral_3_eq_3 numeral_2_eq_2)
  qed
  have "upload_tries env token img (py_range 0 3) [] s1 =
          (Inr ([] @ [u]), after_tries ?rq (map failed_line [0..<k] @ [success_line k]) s1)"
    unfolding split
    by (rule upload_tries_fail_then_success) (use a r in auto)
  then have t: "upload_tries env token img (py_range 0 3) [] s1 =
          (Inr [u], after_tries ?rq (map failed_line [0..<k] @ [success_line k]) s1)" by simp
  from upload_image_split [OF us1(1) t] a us1(2)
  show "upload_image env token (before @ img # rest) s
          = (Inr (urls1 @ filter (\<lambda>image. image \<noteq> JNull) [u] @ urls2), s')"
    by simp
next
  let ?rq = "upload_request token img"
  assume a: "(\<forall>j<3. \<exists>r. server env (sent s1 @ replicate j ?rq) ?rq = Some r \<and> attempt_fails env r) \<and>
    upload_image env token before s = (Inr urls1, s1) \<and>
    upload_image env token rest (after_tries ?rq (map failed_line [0..<3]) s1) = (Inr urls2, s'')"
  from a obtain us1 where us1: "upload_each env token before [] s = (Inr us1, s1)"
    "urls1 = filter (\<lambda>image. image \<noteq> JNull) us1"
    by (auto simp: upload_image_Inr)
  have "upload_tries env token img (py_range 0 3) [] s1 =
          (Inr [], after_tries ?rq (map failed_line (py_range 0 3)) s1)"
    by (rule upload_tries_all_fail) (use a in simp)
  then have t: "upload_tries env token img (py_range 0 3) [] s1 =
          (Inr [], after_tries ?rq (map failed_line [0..<3]) s1)"
    by (simp add: py_range_def)
  from upload_image_split [OF us1(1) t] a us1(2)
  show "upload_image env token (before @ img # rest) s = (Inr (urls1 @ urls2), s'')"
    by simp
next
  assume "upload_image env token imgs s = (Inr urls, t)"
  then obtain us where us: "upload_each env token imgs [] s = (Inr us, t)"
    "urls = filter (\<lambda>image. image \<noteq> JNull) us"
    by (auto simp: upload_image_Inr)
  from upload_each_length [OF us(1)] have "length us \<le> length imgs" by simp
  moreover have "length urls \<le> length us" unfolding us(2) by (rule length_filter_le)
  ultimately show "length urls \<le> length imgs" by simp
  show "JNull \<notin> set urls" unfolding us(2) by simp
next
  show "\<exists>ns. length ns \<le> length imgs \<and> (\<forall>n\<in>set ns. n \<le> 3) \<and>
      sent (snd (upload_image env token imgs s)) =
        sent s @ concat (map (\<lambda>(n, img). replicate n (upload_request token img)) (zip ns imgs))"
    unfolding upload_image_sent by (rule upload_each_sent_blocks)
next
  assume "site_answers_uploads env"
  from upload_each_returns [OF this] obtain us t where
    "upload_each env token imgs [] s = (Inr us, t)" by blast
  then show "\<exists>urls t. upload_image env token imgs s = (Inr urls, t)"
    by (simp add: upload_image_Inr)
qed

lemma demo_site_fails:
  "length hist \<noteq> 2 \<Longrightarrow> length hist < 6 \<Longrightarrow>
     \<exists>r. server demo_upload_env hist rq = Some r \<and> attempt_fails demo_upload_env r"
  by (simp add: demo_upload_env_def demo_upload_site_def demo_json_loads_def attempt_fails_def
      ok_status_def)

lemma demo_site_yields_u1:
  "length hist = 2 \<Longrightarrow>
     \<exists>r. server demo_upload_env hist rq = Some r \<and> attempt_yields demo_upload_env r (JStr ''u1'')"
  by (simp add: demo_upload_env_def demo_upload_site_def demo_json_loads_def attempt_yields_def
      ok_status_def)

lemma demo_site_yields_u3:
  "6 \<le> length hist \<Longrightarrow>
     \<exists>r. server demo_upload_env hist rq = Some r \<and> attempt_yields demo_upload_env r (JStr ''u3'')"
  by (auto simp add: demo_upload_env_def demo_upload_site_def demo_json_loads_def attempt_yields_def
      ok_status_def)

lemma sent_state0 [simp]: "sent state0 = []"
  by (simp add: state0_def)

lemma upload_image_Nil: "upload_image env token [] s = (Inr [], s)"
  by (simp add: upload_image_def bind_def return_def)

theorem upload_image_retries_witness:
  "fst (upload_image demo_upload_env ''tok'' [''A'', ''B'', ''C''] state0)
     = Inr [JStr ''u1'', JStr ''u3''] \<and>
   length (sent (snd (upload_image demo_upload_env ''tok'' [''A'', ''B'', ''C''] state0))) = 7 \<and>
   site_answers_uploads demo_upload_env"
proof -
  let ?e = demo_upload_env
  define sA where "sA = after_tries (upload_request ''tok'' ''A'')
    (map failed_line [0..<2] @ [success_line 2]) state0"
  define sB where "sB = after_tries (upload_request ''tok'' ''B'') (map failed_line [0..<3]) sA"
  define sC where "sC = after_tries (upload_request ''tok'' ''C'') [success_line 0] sB"
  have lA: "length (sent sA) = 3" by (simp add: sA_def after_tries_def)
  have lB: "length (sent sB) = 6" by (simp add: sB_def after_tries_def lA)
  have lC: "length (sent sC) = 7" by (simp add: sC_def after_tries_def lB)
  have A: "upload_image ?e ''tok'' ([] @ ''A'' # []) state0
             = (Inr ([] @ filter (\<lambda>image. image \<noteq> JNull) [JStr ''u1''] @ []), sA)"
    using upload_image_retries [where k = 2 and env = ?e and ?s1.0 = state0 and token = "''tok''"
        and img = "''A''" and u = "JStr ''u1''" and before = "[]" and s = state0
        and ?urls1.0 = "[]" and rest = "[]" and ?urls2.0 = "[]" and s' = sA,
        THEN conjunct1]
    by (simp add: upload_image_Nil sA_def [symmetric] demo_site_fails demo_site_yields_u1)
  have C: "upload_image ?e ''tok'' ([] @ ''C'' # []) sB
             = (Inr ([] @ filter (\<lambda>image. image \<noteq> JNull) [JStr ''u3''] @ []), sC)"
    using upload_image_retries [where k = 0 and env = ?e and ?s1.0 = sB and token = "''tok''"
        and img = "''C''" and u = "JStr ''u3''" and before = "[]" and s = sB
        and ?urls1.0 = "[]" and rest = "[]" and ?urls2.0 = "[]" and s' = sC,
        THEN conjunct1]
    by (simp add: upload_image_Nil sC_def [symmetric] demo_site_yields_u3 lB)
  have B: "upload_image ?e ''tok'' ([''A''] @ ''B'' # [''C'']) state0
             = (Inr ([JStr ''u1''] @ [JStr ''u3'']), sC)"
    using upload_image_retries [where env = ?e and ?s1.0 = sA and token = "''tok''"
        and img = "''B''" and before = "[''A'']" and s = state0
        and ?urls1.0 = "[JStr ''u1'']" and rest = "[''C'']" and ?urls2.0 = "[JStr ''u3'']"
        and s'' = sC, THEN conjunct2, THEN conjunct1]
      A C
    by (simp add: sB_def [symmetric] demo_site_fails lA)
  have S: "site_answers_uploads ?e"
    unfolding site_answers_uploads_def
  proof (intro allI)
    fix hist :: "request list" and rq :: request
    consider "length hist = 2" | "6 \<le> length hist" | "length hist \<noteq> 2" "length hist < 6"
      by linarith
    then show "\<exists>r. server ?e hist rq = Some r \<and>
        (attempt_fails ?e r \<or> (\<exists>u. attempt_yields ?e r u))"
      using demo_site_fails [of hist rq] demo_site_yields_u1 [of hist rq]
        demo_site_yields_u3 [of hist rq]
      by cases blast+
  qed
  from B lC S show ?thesis by simp
qed

subsection \<open>\<^verbatim>\<open>post_ad_using_data\<close>\<close>

lemma data_simps:
  "bind (on_session m) f (d, s) =
     (case m s of (Inl e, s') \<Rightarrow> (Inl e, (d, s')) | (Inr x, s') \<Rightarrow> f x (d, s'))"
  "bind (data_set k v) g (d, s) = g () (d(k \<mapsto> v), s)"
  "bind (data_getitem k) h (d, s) =
     (case d k of None \<Rightarrow> (Inl KeyError, (d, s)) | Some v \<Rightarrow> h v (d, s))"
  "bind (data_get k dflt) h (d, s) = h (case d k of None \<Rightarrow> dflt | Some v \<Rightarrow> v) (d, s)"
  "bind data_read i (d, s) = i d (d, s)"
  by (auto simp: bind_def on_session_def data_set_def data_getitem_def data_get_def data_read_def
      split: prod.splits sum.splits option.splits)

lemma on_session_apply:
  "on_session m (d, s) = (case m s of (r, s') \<Rightarrow> (r, (d, s')))"
  by (simp add: on_session_def)

lemma data_set_apply: "data_set k v (d, s) = (Inr (), (d(k \<mapsto> v), s))"
  by (simp add: data_set_def)

lemma raise_api_result:
  "raise_api env msg dump s = (r, s') \<Longrightarrow>
     sent s' = sent s \<and> (\<exists>p. r = Inl (KijijiApiException msg p))"
  by (auto simp: raise_api_def split: option.splits if_splits)

lemma get_token_result:
  "get_token env html n s = (r, s') \<Longrightarrow>
     sent s' = sent s \<and>
     (case r of
        Inr v \<Rightarrow> s' = s
      | Inl e \<Rightarrow> e = KeyError \<or>
          (\<exists>p. e = KijijiApiException
             (''Element with name attribute '' @ [quote] @ n @ [quote] @ '' not found in html text.'') p))"
  by (auto simp: get_token_def return_def raise_def split: list.splits option.splits
      dest: raise_api_result)

lemma getitem_error: "getitem j k = Inl e \<Longrightarrow> e = KeyError \<or> e = TypeError"
  by (cases j) (auto split: option.splits)

lemma upload_tries_error:
  "upload_tries env token img is acc s = (Inl e, s') \<Longrightarrow>
     e = RequestException \<or> e = HTTPError \<or> e = TypeError"
proof (induction "is" arbitrary: s)
  case Nil
  then show ?case by (simp add: upload_tries.simps return_def)
next
  case (Cons i "is")
  from Cons.prems show ?case
    apply (simp add: upload_tries.simps step_simps return_def raise_def
        split: option.splits sum.splits exn.splits if_splits)
    apply (auto dest: Cons.IH getitem_error)
    done
qed

lemma upload_each_error:
  "upload_each env token imgs acc s = (Inl e, s') \<Longrightarrow>
     e = RequestException \<or> e = HTTPError \<or> e = TypeError"
proof (induction imgs arbitrary: acc s)
  case Nil
  then show ?case by (simp add: return_def)
next
  case (Cons img imgs)
  from Cons.prems show ?case
    by (auto simp: bind_def split: prod.splits sum.splits dest: upload_tries_error Cons.IH)
qed

lemma upload_image_error:
  "upload_image env token imgs s = (Inl e, s') \<Longrightarrow>
     e = RequestException \<or> e = HTTPError \<or> e = TypeError"
  by (auto simp: upload_image_def bind_def return_def split: prod.splits sum.splits
      dest: upload_each_error)

lemma upload_image_sent_urls:
  assumes "upload_image env token imgs s = (r, s')"
  shows "\<exists>new. sent s' = sent s @ new \<and> (\<forall>rq\<in>set new. req_url rq = image_upload_url)"
proof -
  from upload_each_sent [of env token imgs "[]" s] obtain new where
    n: "sent (snd (upload_each env token imgs [] s)) = sent s @ new"
    "set new \<subseteq> upload_request token ` set imgs" by blast
  from n(2) have "\<forall>rq\<in>set new. req_url rq = image_upload_url"
    by (auto simp: upload_request_def post_request_def)
  with n(1) assms upload_image_sent [of env token imgs s] show ?thesis by auto
qed

lemma str_items_error: "str_items xs = Inl e \<Longrightarrow> e = TypeError"
  by (induction xs rule: str_items.induct) (auto split: sum.splits)

lemmas title_messages = title_too_short_def title_too_long_def quote_def

lemma post_ad_form_result:
  assumes "post_ad_form env imgs (data, s) = (r, (data1, s1))"
  shows "(\<exists>new. sent s1 = sent s @ get_request post_ad_page_url [] # new \<and>
            (\<forall>rq\<in>set new. req_url rq = image_upload_url)) \<and>
         (\<forall>m p. r = Inl (KijijiApiException m p) \<longrightarrow> m \<noteq> title_too_short \<and> m \<noteq> title_too_long) \<and>
         (r = Inr () \<longrightarrow>
            (\<exists>resp tok urls image_list t1 t2 d.
               server env (sent s) (get_request post_ad_page_url []) = Some resp \<and>
               re_search initial_xsrf_at (resp_text resp) = Some tok \<and>
               upload_image env tok imgs (s\<lparr>sent := sent s @ [get_request post_ad_page_url []]\<rparr>)
                 = (Inr urls, s1) \<and>
               str_items urls = Inr image_list \<and>
               get_token env (resp_text resp) ''ca.kijiji.xsrf.token'' s1 = (Inr t1, s1) \<and>
               get_token env (resp_text resp) ''postAdForm.fraudToken'' s1 = (Inr t2, s1) \<and>
               data ''postAdForm.description'' = Some d \<and>
               data1 = data(''images'' \<mapsto> join '','' image_list,
                            ''ca.kijiji.xsrf.token'' \<mapsto> t1,
                            ''postAdForm.fraudToken'' \<mapsto> t2,
                            ''postAdForm.description'' \<mapsto> replace [backslash, CHR ''n''] [newline] d)))"
proof -
  let ?g = "get_request post_ad_page_url []"
  let ?s0 = "s\<lparr>sent := sent s @ [?g]\<rparr>"
  show ?thesis
  proof (cases "server env (sent s) ?g")
    case None
    with assms show ?thesis
      by (auto simp: post_ad_form_def data_simps session_get_def session_send_def)
  next
    case (Some resp)
    note resp = Some
    show ?thesis
    proof (cases "re_search initial_xsrf_at (resp_text resp)")
      case None
      with assms resp show ?thesis
        by (auto simp: post_ad_form_def data_simps session_get_def session_send_def
            on_session_apply title_messages split: prod.splits dest!: raise_api_result)
    next
      case (Some tok)
      note tok = Some
      obtain ru su where up: "upload_image env tok imgs ?s0 = (ru, su)"
        by (cases "upload_image env tok imgs ?s0")
      from upload_image_sent_urls [OF up] obtain new where
        new: "sent su = sent s @ ?g # new" "\<forall>rq\<in>set new. req_url rq = image_upload_url"
        by auto
      show ?thesis
      proof (cases ru)
        case (Inl e)
        with assms resp tok up new upload_image_error [of env tok imgs ?s0 e su] show ?thesis
          by (auto simp: post_ad_form_def data_simps session_get_def session_send_def)
      next
        case (Inr urls)
        note urls = Inr
        show ?thesis
        proof (cases "str_items urls")
          case (Inl e)
          with assms resp tok up new urls str_items_error [of urls e] show ?thesis
            by (auto simp: post_ad_form_def data_simps session_get_def session_send_def)
        next
          case (Inr image_list)
          note il = Inr
          obtain r1 s11 where t1: "get_token env (resp_text resp) ''ca.kijiji.xsrf.token'' su = (r1, s11)"
            by (cases "get_token env (resp_text resp) ''ca.kijiji.xsrf.token'' su")
          note g1 = get_token_result [OF t1]
          show ?thesis
          proof (cases r1)
            case (Inl e)
            with assms resp tok up new urls il t1 g1 show ?thesis
              by (auto simp: post_ad_form_def data_simps session_get_def session_send_def
                  title_messages)
          next
            case (Inr v1)
            note v1 = Inr
            with g1 have s11: "s11 = su" by simp
            obtain r2 s12 where t2: "get_token env (resp_text resp) ''postAdForm.fraudToken'' su = (r2, s12)"
              by (cases "get_token env (resp_text resp) ''postAdForm.fraudToken'' su")
            note g2 = get_token_result [OF t2]
            show ?thesis
            proof (cases r2)
              case (Inl e)
              with assms resp tok up new urls il t1 v1 s11 t2 g2 show ?thesis
                by (auto simp: post_ad_form_def data_simps session_get_def session_send_def
                    title_messages)
            next
              case (Inr v2)
              with g2 have s12: "s12 = su" by simp
              from assms resp tok up new urls il t1 v1 s11 t2 Inr s12 show ?thesis
                by (auto simp: post_ad_form_def data_simps session_get_def session_send_def
                    data_set_apply split: option.splits)
            qed
          qed
        qed
      qed
    qed
  qed
qed

lemma re_search_Some:
  "re_search at s = Some g \<Longrightarrow> \<exists>pre suf. s = pre @ suf \<and> at suf = Some g"
proof (induction s)
  case Nil
  then show ?case by simp
next
  case (Cons c cs)
  show ?case
  proof (cases "at (c # cs)")
    case None
    with Cons.prems have "re_search at cs = Some g" by simp
    from Cons.IH [OF this] obtain pre suf where "cs = pre @ suf" "at suf = Some g" by blast
    then show ?thesis by (intro exI [of _ "c # pre"] exI [of _ suf]) simp
  next
    case (Some g')
    with Cons.prems have "g' = g" by simp
    with Some show ?thesis by (intro exI [of _ "[]"] exI [of _ "c # cs"]) simp
  qed
qed

lemma re_search_None:
  "re_search at s = None \<longleftrightarrow> (\<forall>pre suf. s = pre @ suf \<longrightarrow> at suf = None)"
proof (induction s)
  case Nil
  then show ?case by simp
next
  case (Cons c cs)
  show ?case
  proof (cases "at (c # cs)")
    case None
    have "(\<forall>pre suf. c # cs = pre @ suf \<longrightarrow> at suf = None) \<longleftrightarrow>
          (\<forall>pre suf. cs = pre @ suf \<longrightarrow> at suf = None)"
    proof
      assume a: "\<forall>pre suf. c # cs = pre @ suf \<longrightarrow> at suf = None"
      show "\<forall>pre suf. cs = pre @ suf \<longrightarrow> at suf = None"
      proof (intro allI impI)
        fix pre suf assume "cs = pre @ suf"
        then have "c # cs = (c # pre) @ suf" by simp
        with a show "at suf = None" by blast
      qed
    next
      assume a: "\<forall>pre suf. cs = pre @ suf \<longrightarrow> at suf = None"
      show "\<forall>pre suf. c # cs = pre @ suf \<longrightarrow> at suf = None"
      proof (intro allI impI)
        fix pre suf assume e: "c # cs = pre @ suf"
        show "at suf = None"
        proof (cases pre)
          case Nil
          with e None show ?thesis by simp
        next
          case (Cons p ps)
          with e have "cs = ps @ suf" by simp
          with a show ?thesis by blast
        qed
      qed
    qed
    with None Cons.IH show ?thesis by simp
  next
    case (Some g)
    have "c # cs = [] @ (c # cs)" by simp
    with Some have "\<not> (\<forall>pre suf. c # cs = pre @ suf \<longrightarrow> at suf = None)"
      by (metis option.distinct(1))
    with Some show ?thesis by simp
  qed
qed

lemma starts_with_append: "starts_with p s \<longleftrightarrow> (\<exists>r. s = p @ r)"
  unfolding starts_with_def
  by (metis append_eq_conv_conj append_take_drop_id)

lemma kjrva_at_Some:
  assumes "kjrva_at s = Some ds"
  shows "ds \<noteq> [] \<and> (\<forall>c\<in>set ds. is_digit c) \<and>
         (\<exists>post. s = ''kjrva='' @ ds @ post \<and> (post = [] \<or> \<not> is_digit (hd post)))"
proof -
  from assms have sw: "starts_with ''kjrva='' s"
    by (auto simp: kjrva_at_def split: if_splits)
  then obtain r where r: "s = ''kjrva='' @ r" unfolding starts_with_append by blast
  from assms sw r have ds: "ds = takeWhile is_digit r" "ds \<noteq> []"
    by (auto simp: kjrva_at_def Let_def split: if_splits)
  have "r = ds @ dropWhile is_digit r" by (simp add: ds)
  moreover have "dropWhile is_digit r = [] \<or> \<not> is_digit (hd (dropWhile is_digit r))"
    by (metis hd_dropWhile)
  moreover have "\<forall>c\<in>set ds. is_digit c" unfolding ds by (auto dest: set_takeWhileD)
  ultimately show ?thesis using r ds(2) by (metis append.assoc)
qed

lemma kjrva_at_None:
  "kjrva_at s = None \<longleftrightarrow> \<not> (\<exists>d post. s = ''kjrva='' @ d # post \<and> is_digit d)"
proof (cases "starts_with ''kjrva='' s")
  case False
  then have "kjrva_at s = None" by (simp add: kjrva_at_def)
  moreover from False have "\<not> (\<exists>d post. s = ''kjrva='' @ d # post \<and> is_digit d)"
    unfolding starts_with_append by blast
  ultimately show ?thesis by simp
next
  case True
  then obtain r where r: "s = ''kjrva='' @ r" unfolding starts_with_append by blast
  have k: "kjrva_at s = None \<longleftrightarrow> takeWhile is_digit r = []"
    using True r by (simp add: kjrva_at_def Let_def)
  have "takeWhile is_digit r = [] \<longleftrightarrow> \<not> (\<exists>d post. r = d # post \<and> is_digit d)"
    by (cases r) auto
  with k r show ?thesis by auto
qed

lemma bind_lift_result:
  "bind (lift_result r) f s = (case r of Inl e \<Rightarrow> (Inl e, s) | Inr x \<Rightarrow> f x s)"
  by (simp add: bind_def lift_result_def split: sum.splits)

lemma post_ad_submit_result:
  assumes "post_ad_submit env (d, s) = (r, (d', s'))"
  shows "d' = d \<and> sent s' = sent s @ [post_request new_ad_url (map_option JStr \<circ> d) [] []] \<and>
         (\<forall>m p. r = Inl (KijijiApiException m p) \<longrightarrow> m \<noteq> title_too_short \<and> m \<noteq> title_too_long)"
  using assms
  by (auto simp: post_ad_submit_def data_simps session_post_def session_send_def on_session_apply
      raise_for_status_def raise_def return_def bind_lift_result header_getitem_def
      title_messages
      split: option.splits if_splits prod.splits sum.splits dest!: raise_api_result)

lemma post_ad_form_title:
  assumes "post_ad_form env imgs (data, s) = (Inr (), (data1, s1))"
  shows "data1 ''postAdForm.title'' = data ''postAdForm.title''"
proof -
  from post_ad_form_result [OF assms] obtain image_list t1 t2 d where
    "data1 = data(''images'' \<mapsto> join '','' image_list,
                  ''ca.kijiji.xsrf.token'' \<mapsto> t1,
                  ''postAdForm.fraudToken'' \<mapsto> t2,
                  ''postAdForm.description'' \<mapsto> replace [backslash, CHR ''n''] [newline] d)"
    by blast
  then show ?thesis by simp
qed

lemma post_ad_after_form:
  assumes "post_ad_form env imgs (data, s) = (Inr (), (data1, s1))"
  shows "post_ad_using_data env imgs (data, s) =
         (case data ''postAdForm.title'' of
            None \<Rightarrow> (Inl (KijijiApiException title_too_short []), (data1, s1))
          | Some title \<Rightarrow>
              if length title < 10 then (Inl (KijijiApiException title_too_short []), (data1, s1))
              else if 64 < length title then (Inl (KijijiApiException title_too_long []), (data1, s1))
              else post_ad_submit env (data1, s1))"
  using post_ad_form_title [OF assms]
  by (simp add: post_ad_using_data_def bind_def [of "post_ad_form env imgs"] assms data_simps
      on_session_apply raise_api_def split: option.splits)

lemma post_ad_form_failed:
  assumes "post_ad_form env imgs (data, s) = (Inl e, st)"
  shows "post_ad_using_data env imgs (data, s) = (Inl e, st)"
  by (simp add: post_ad_using_data_def bind_def [of "post_ad_form env imgs"] assms)

text \<open>
  C3. Once the steps before the check have succeeded (leaving the dictionary \<open>data1\<close> and the
  state \<open>s1\<close>): a title of 10 to 64 characters is accepted, the call goes on to the
  submission and the submission request is sent; a shorter title is rejected with the
  too-short error, a longer one with the too-long error, and a dictionary without a title
  is rejected as too short; a rejection sends nothing more. In particular 10 and 64 are
  accepted, 9 and 65 rejected.
\<close>

theorem title_length_validation:
  "post_ad_form env image_files (data, s) = (Inr (), (data1, s1)) \<longrightarrow>
     (data ''postAdForm.title'' = Some title \<and> 10 \<le> length title \<and> length title \<le> 64 \<longrightarrow>
        post_ad_using_data env image_files (data, s) = post_ad_submit env (data1, s1) \<and>
        sent (snd (snd (post_ad_using_data env image_files (data, s)))) =
          sent s1 @ [post_request new_ad_url (map_option JStr \<circ> data1) [] []]) \<and>
     (data ''postAdForm.title'' = Some title \<and> length title < 10 \<longrightarrow>
        post_ad_using_data env image_files (data, s) =
          (Inl (KijijiApiException title_too_short []), (data1, s1))) \<and>
     (data ''postAdForm.title'' = Some title \<and> 64 < length title \<longrightarrow>
        post_ad_using_data env image_files (data, s) =
          (Inl (KijijiApiException title_too_long []), (data1, s1))) \<and>
     (data ''postAdForm.title'' = None \<longrightarrow>
        post_ad_using_data env image_files (data, s) =
          (Inl (KijijiApiException title_too_short []), (data1, s1)))"
proof (intro impI)
  assume form: "post_ad_form env image_files (data, s) = (Inr (), (data1, s1))"
  note after = post_ad_after_form [OF form]
  obtain r d' s' where sub: "post_ad_submit env (data1, s1) = (r, (d', s'))"
    by (cases "post_ad_submit env (data1, s1)") auto
  from post_ad_submit_result [OF sub] sub
  have "sent (snd (snd (post_ad_submit env (data1, s1)))) =
          sent s1 @ [post_request new_ad_url (map_option JStr \<circ> data1) [] []]"
    by simp
  with after show "(data ''postAdForm.title'' = Some title \<and> 10 \<le> length title \<and> length title \<le> 64 \<longrightarrow>
        post_ad_using_data env image_files (data, s) = post_ad_submit env (data1, s1) \<and>
        sent (snd (snd (post_ad_using_data env image_files (data, s)))) =
          sent s1 @ [post_request new_ad_url (map_option JStr \<circ> data1) [] []]) \<and>
     (data ''postAdForm.title'' = Some title \<and> length title < 10 \<longrightarrow>
        post_ad_using_data env image_files (data, s) =
          (Inl (KijijiApiException title_too_short []), (data1, s1))) \<and>
     (data ''postAdForm.title'' = Some title \<and> 64 < length title \<longrightarrow>
        post_ad_using_data env image_files (data, s) =
          (Inl (KijijiApiException title_too_long []), (data1, s1))) \<and>
     (data ''postAdForm.title'' = None \<longrightarrow>
        post_ad_using_data env image_files (data, s) =
          (Inl (KijijiApiException title_too_short []), (data1, s1)))"
    by auto
qed

text \<open>
  C4, as amended. With a title the check rejects, the call ends in an error; the requests
  it has sent are the GET of the posting page followed by image uploads only, none of them
  to the submission URL; and when the steps before the check succeed, the error is the
  title error, raised without a dump. (As stated, the claim fails: the GET of the posting
  page and the uploads are sent before the check.)
\<close>

theorem invalid_title_not_submitted:
  "invalid_title data \<longrightarrow>
     (\<exists>e. fst (post_ad_using_data env image_files (data, s)) = Inl e) \<and>
     (\<exists>new. sent (snd (snd (post_ad_using_data env image_files (data, s)))) =
               sent s @ get_request post_ad_page_url [] # new \<and>
            (\<forall>rq\<in>set new. req_url rq = image_upload_url) \<and>
            (\<forall>rq\<in>set (get_request post_ad_page_url [] # new). req_url rq \<noteq> new_ad_url)) \<and>
     (post_ad_form env image_files (data, s) = (Inr (), (data1, s1)) \<longrightarrow>
        (\<exists>m. post_ad_using_data env image_files (data, s) =
                (Inl (KijijiApiException m []), (data1, s1)) \<and>
             (m = title_too_short \<or> m = title_too_long)))"
proof (intro impI)
  assume inv: "invalid_title data"
  obtain r d0 s0 where form: "post_ad_form env image_files (data, s) = (r, (d0, s0))"
    by (cases "post_ad_form env image_files (data, s)") auto
  from post_ad_form_result [OF form] obtain new where
    new: "sent s0 = sent s @ get_request post_ad_page_url [] # new"
    "\<forall>rq\<in>set new. req_url rq = image_upload_url" by blast
  have urls: "\<forall>rq\<in>set (get_request post_ad_page_url [] # new). req_url rq \<noteq> new_ad_url"
    using new(2)
    by (auto simp: get_request_def post_ad_page_url_def new_ad_url_def image_upload_url_def)
  have res: "(\<exists>e. post_ad_using_data env image_files (data, s) = (Inl e, (d0, s0))) \<and>
             (r = Inr () \<longrightarrow> (\<exists>m. post_ad_using_data env image_files (data, s) =
                (Inl (KijijiApiException m []), (d0, s0)) \<and>
                (m = title_too_short \<or> m = title_too_long)))"
  proof (cases r)
    case (Inl e)
    with form post_ad_form_failed [of env image_files data s e "(d0, s0)"] show ?thesis by simp
  next
    case (Inr u)
    with form have f: "post_ad_form env image_files (data, s) = (Inr (), (d0, s0))" by simp
    from post_ad_after_form [OF f] inv show ?thesis
      by (auto simp: invalid_title_def split: option.splits)
  qed
  show "(\<exists>e. fst (post_ad_using_data env image_files (data, s)) = Inl e) \<and>
     (\<exists>new. sent (snd (snd (post_ad_using_data env image_files (data, s)))) =
               sent s @ get_request post_ad_page_url [] # new \<and>
            (\<forall>rq\<in>set new. req_url rq = image_upload_url) \<and>
            (\<forall>rq\<in>set (get_request post_ad_page_url [] # new). req_url rq \<noteq> new_ad_url)) \<and>
     (post_ad_form env image_files (data, s) = (Inr (), (data1, s1)) \<longrightarrow>
        (\<exists>m. post_ad_using_data env image_files (data, s) =
                (Inl (KijijiApiException m []), (data1, s1)) \<and>
             (m = title_too_short \<or> m = title_too_long)))"
  proof (intro conjI impI)
    from res show "\<exists>e. fst (post_ad_using_data env image_files (data, s)) = Inl e" by auto
    from res new urls show "\<exists>new. sent (snd (snd (post_ad_using_data env image_files (data, s)))) =
               sent s @ get_request post_ad_page_url [] # new \<and>
            (\<forall>rq\<in>set new. req_url rq = image_upload_url) \<and>
            (\<forall>rq\<in>set (get_request post_ad_page_url [] # new). req_url rq \<noteq> new_ad_url)"
      by (intro exI [of _ new]) auto
    assume "post_ad_form env image_files (data, s) = (Inr (), (data1, s1))"
    with form res show "\<exists>m. post_ad_using_data env image_files (data, s) =
                (Inl (KijijiApiException m []), (data1, s1)) \<and>
             (m = title_too_short \<or> m = title_too_long)" by simp
  qed
qed

text \<open>
  C9. Whenever the call ends in one of the two title errors, the caller's dictionary has
  been written: \<^verbatim>\<open>images\<close> holds the joined upload URLs, the two token keys hold the
  scraped values, and the description holds the old description with its escaped newlines
  replaced; every other key is as the caller passed it.
\<close>

theorem title_error_after_mutation:
  "post_ad_using_data env image_files (data, s) = (Inl (KijijiApiException m p), (data', s')) \<and>
   (m = title_too_short \<or> m = title_too_long) \<longrightarrow>
     (\<exists>resp tok urls image_list t1 t2 d.
        server env (sent s) (get_request post_ad_page_url []) = Some resp \<and>
        re_search initial_xsrf_at (resp_text resp) = Some tok \<and>
        upload_image env tok image_files (s\<lparr>sent := sent s @ [get_request post_ad_page_url []]\<rparr>)
          = (Inr urls, s') \<and>
        str_items urls = Inr image_list \<and>
        get_token env (resp_text resp) ''ca.kijiji.xsrf.token'' s' = (Inr t1, s') \<and>
        get_token env (resp_text resp) ''postAdForm.fraudToken'' s' = (Inr t2, s') \<and>
        data ''postAdForm.description'' = Some d \<and>
        data' = data(''images'' \<mapsto> join '','' image_list,
                     ''ca.kijiji.xsrf.token'' \<mapsto> t1,
                     ''postAdForm.fraudToken'' \<mapsto> t2,
                     ''postAdForm.description'' \<mapsto> replace [backslash, CHR ''n''] [newline] d) \<and>
        data' ''images'' = Some (join '','' image_list) \<and>
        data' ''ca.kijiji.xsrf.token'' = Some t1 \<and>
        data' ''postAdForm.fraudToken'' = Some t2 \<and>
        data' ''postAdForm.description'' = Some (replace [backslash, CHR ''n''] [newline] d))"
proof (intro impI)
  assume a: "post_ad_using_data env image_files (data, s) = (Inl (KijijiApiException m p), (data', s')) \<and>
   (m = title_too_short \<or> m = title_too_long)"
  obtain r d0 s0 where form: "post_ad_form env image_files (data, s) = (r, (d0, s0))"
    by (cases "post_ad_form env image_files (data, s)") auto
  note fr = post_ad_form_result [OF form]
  have r: "r = Inr ()"
  proof (cases r)
    case (Inl e)
    with form post_ad_form_failed [of env image_files data s e "(d0, s0)"] a fr
    show ?thesis by auto
  next
    case (Inr u)
    then show ?thesis by simp
  qed
  with form have f: "post_ad_form env image_files (data, s) = (Inr (), (d0, s0))" by simp
  have st: "d0 = data' \<and> s0 = s'"
  proof -
    obtain r2 d2 s2 where sub: "post_ad_submit env (d0, s0) = (r2, (d2, s2))"
      by (cases "post_ad_submit env (d0, s0)") auto
    from post_ad_submit_result [OF sub] post_ad_after_form [OF f] a sub show ?thesis
      by (auto split: option.splits if_splits)
  qed
  from fr r st obtain resp tok urls image_list t1 t2 d where
    w: "server env (sent s) (get_request post_ad_page_url []) = Some resp"
      "re_search initial_xsrf_at (resp_text resp) = Some tok"
      "upload_image env tok image_files (s\<lparr>sent := sent s @ [get_request post_ad_page_url []]\<rparr>)
          = (Inr urls, s')"
      "str_items urls = Inr image_list"
      "get_token env (resp_text resp) ''ca.kijiji.xsrf.token'' s' = (Inr t1, s')"
      "get_token env (resp_text resp) ''postAdForm.fraudToken'' s' = (Inr t2, s')"
      "data ''postAdForm.description'' = Some d"
      "data' = data(''images'' \<mapsto> join '','' image_list,
                     ''ca.kijiji.xsrf.token'' \<mapsto> t1,
                     ''postAdForm.fraudToken'' \<mapsto> t2,
                     ''postAdForm.description'' \<mapsto> replace [backslash, CHR ''n''] [newline] d)"
    by blast
  from w(8) have k: "data' ''images'' = Some (join '','' image_list)"
    "data' ''ca.kijiji.xsrf.token'' = Some t1"
    "data' ''postAdForm.fraudToken'' = Some t2"
    "data' ''postAdForm.description'' = Some (replace [backslash, CHR ''n''] [newline] d)"
    by simp_all
  from w k show "\<exists>resp tok urls image_list t1 t2 d.
        server env (sent s) (get_request post_ad_page_url []) = Some resp \<and>
        re_search initial_xsrf_at (resp_text resp) = Some tok \<and>
        upload_image env tok image_files (s\<lparr>sent := sent s @ [get_request post_ad_page_url []]\<rparr>)
          = (Inr urls, s') \<and>
        str_items urls = Inr image_list \<and>
        get_token env (resp_text resp) ''ca.kijiji.xsrf.token'' s' = (Inr t1, s') \<and>
        get_token env (resp_text resp) ''postAdForm.fraudToken'' s' = (Inr t2, s') \<and>
        data ''postAdForm.description'' = Some d \<and>
        data' = data(''images'' \<mapsto> join '','' image_list,
                     ''ca.kijiji.xsrf.token'' \<mapsto> t1,
                     ''postAdForm.fraudToken'' \<mapsto> t2,
                     ''postAdForm.description'' \<mapsto> replace [backslash, CHR ''n''] [newline] d) \<and>
        data' ''images'' = Some (join '','' image_list) \<and>
        data' ''ca.kijiji.xsrf.token'' = Some t1 \<and>
        data' ''postAdForm.fraudToken'' = Some t2 \<and>
        data' ''postAdForm.description'' = Some (replace [backslash, CHR ''n''] [newline] d)"
    by blast
qed

lemma set_cookie_key: "map ascii_lower ''Set-Cookie'' = ''set-cookie''"
  by (simp add: ascii_lower_def)

lemma header_getitem_set_cookie:
  "header_getitem resp ''Set-Cookie'' =
     (case resp_headers resp ''set-cookie'' of None \<Rightarrow> Inl KeyError | Some v \<Rightarrow> Inr v)"
  unfolding header_getitem_def set_cookie_key ..

lemma post_ad_submit_success:
  assumes "server env (sent s) (post_request new_ad_url (map_option JStr \<circ> d) [] []) = Some resp"
    and "\<not> (400 \<le> status_code resp \<and> status_code resp < 600)"
    and "contains ''Delete Ad?'' (resp_text resp)"
  shows "fst (post_ad_submit env (d, s)) =
         (case resp_headers resp ''set-cookie'' of
            None \<Rightarrow> Inl KeyError
          | Some cookie \<Rightarrow>
              (case re_search kjrva_at cookie of
                 None \<Rightarrow> Inl AttributeError
               | Some ad_id \<Rightarrow> Inr ad_id))"
  using assms
  by (auto simp: post_ad_submit_def data_simps session_post_def session_send_def on_session_apply
      raise_for_status_def raise_def return_def bind_lift_result header_getitem_set_cookie
      split: option.splits)

text \<open>
  C10. On the success path (the steps before the check succeeded, the title is valid, the
  submission is answered without an HTTP error status and with the marker
  \<^verbatim>\<open>Delete Ad?\<close>): with no \<^verbatim>\<open>Set-Cookie\<close> header the call ends in a \<^verbatim>\<open>KeyError\<close>; with
  a header that has no \<^verbatim>\<open>kjrva=\<close> followed by a digit it ends in an \<^verbatim>\<open>AttributeError\<close>;
  otherwise it returns the digits matched after \<^verbatim>\<open>kjrva=\<close>. Neither error is a
  \<open>KijijiApiException\<close>.
\<close>

theorem ad_id_from_cookie:
  "post_ad_form env image_files (data, s) = (Inr (), (data1, s1)) \<and>
   data ''postAdForm.title'' = Some title \<and> 10 \<le> length title \<and> length title \<le> 64 \<and>
   server env (sent s1) (post_request new_ad_url (map_option JStr \<circ> data1) [] []) = Some resp \<and>
   \<not> (400 \<le> status_code resp \<and> status_code resp < 600) \<and>
   contains ''Delete Ad?'' (resp_text resp) \<longrightarrow>
     (resp_headers resp ''set-cookie'' = None \<longrightarrow>
        fst (post_ad_using_data env image_files (data, s)) = Inl KeyError) \<and>
     (\<forall>cookie. resp_headers resp ''set-cookie'' = Some cookie \<longrightarrow>
        (\<not> (\<exists>pre d post. cookie = pre @ ''kjrva='' @ d # post \<and> is_digit d) \<longrightarrow>
           fst (post_ad_using_data env image_files (data, s)) = Inl AttributeError) \<and>
        ((\<exists>pre d post. cookie = pre @ ''kjrva='' @ d # post \<and> is_digit d) \<longrightarrow>
           (\<exists>ad_id pre post.
              fst (post_ad_using_data env image_files (data, s)) = Inr ad_id \<and>
              re_search kjrva_at cookie = Some ad_id \<and>
              ad_id \<noteq> [] \<and> (\<forall>c\<in>set ad_id. is_digit c) \<and>
              cookie = pre @ ''kjrva='' @ ad_id @ post \<and>
              (post = [] \<or> \<not> is_digit (hd post)))))"
proof (intro impI)
  assume a: "post_ad_form env image_files (data, s) = (Inr (), (data1, s1)) \<and>
   data ''postAdForm.title'' = Some title \<and> 10 \<le> length title \<and> length title \<le> 64 \<and>
   server env (sent s1) (post_request new_ad_url (map_option JStr \<circ> data1) [] []) = Some resp \<and>
   \<not> (400 \<le> status_code resp \<and> status_code resp < 600) \<and>
   contains ''Delete Ad?'' (resp_text resp)"
  then have form: "post_ad_form env image_files (data, s) = (Inr (), (data1, s1))" by simp
  from post_ad_after_form [OF form] a
  have eq: "post_ad_using_data env image_files (data, s) = post_ad_submit env (data1, s1)"
    by simp
  from a have res: "fst (post_ad_using_data env image_files (data, s)) =
         (case resp_headers resp ''set-cookie'' of
            None \<Rightarrow> Inl KeyError
          | Some cookie \<Rightarrow>
              (case re_search kjrva_at cookie of
                 None \<Rightarrow> Inl AttributeError
               | Some ad_id \<Rightarrow> Inr ad_id))"
    unfolding eq by (intro post_ad_submit_success) auto
  have none_iff: "re_search kjrva_at cookie = None \<longleftrightarrow>
      \<not> (\<exists>pre d post. cookie = pre @ ''kjrva='' @ d # post \<and> is_digit d)" for cookie
    unfolding re_search_None kjrva_at_None by blast
  show "(resp_headers resp ''set-cookie'' = None \<longrightarrow>
        fst (post_ad_using_data env image_files (data, s)) = Inl KeyError) \<and>
     (\<forall>cookie. resp_headers resp ''set-cookie'' = Some cookie \<longrightarrow>
        (\<not> (\<exists>pre d post. cookie = pre @ ''kjrva='' @ d # post \<and> is_digit d) \<longrightarrow>
           fst (post_ad_using_data env image_files (data, s)) = Inl AttributeError) \<and>
        ((\<exists>pre d post. cookie = pre @ ''kjrva='' @ d # post \<and> is_digit d) \<longrightarrow>
           (\<exists>ad_id pre post.
              fst (post_ad_using_data env image_files (data, s)) = Inr ad_id \<and>
              re_search kjrva_at cookie = Some ad_id \<and>
              ad_id \<noteq> [] \<and> (\<forall>c\<in>set ad_id. is_digit c) \<and>
              cookie = pre @ ''kjrva='' @ ad_id @ post \<and>
              (post = [] \<or> \<not> is_digit (hd post)))))"
  proof (intro conjI allI impI)
    assume "resp_headers resp ''set-cookie'' = None"
    with res show "fst (post_ad_using_data env image_files (data, s)) = Inl KeyError" by simp
  next
    fix cookie
    assume c: "resp_headers resp ''set-cookie'' = Some cookie"
      and n: "\<not> (\<exists>pre d post. cookie = pre @ ''kjrva='' @ d # post \<and> is_digit d)"
    from n none_iff [of cookie] have "re_search kjrva_at cookie = None" by simp
    with res c show "fst (post_ad_using_data env image_files (data, s)) = Inl AttributeError"
      by simp
  next
    fix cookie
    assume c: "resp_headers resp ''set-cookie'' = Some cookie"
      and n: "\<exists>pre d post. cookie = pre @ ''kjrva='' @ d # post \<and> is_digit d"
    from n none_iff [of cookie] obtain ad_id where ad: "re_search kjrva_at cookie = Some ad_id"
      by auto
    from re_search_Some [OF ad] obtain pre suf where
      ps: "cookie = pre @ suf" "kjrva_at suf = Some ad_id" by blast
    from kjrva_at_Some [OF ps(2)] obtain post where
      k: "ad_id \<noteq> []" "\<forall>c\<in>set ad_id. is_digit c" "suf = ''kjrva='' @ ad_id @ post"
      "post = [] \<or> \<not> is_digit (hd post)" by blast
    from res c ad have "fst (post_ad_using_data env image_files (data, s)) = Inr ad_id" by simp
    with ad k ps(1) show "\<exists>ad_id pre post.
              fst (post_ad_using_data env image_files (data, s)) = Inr ad_id \<and>
              re_search kjrva_at cookie = Some ad_id \<and>
              ad_id \<noteq> [] \<and> (\<forall>c\<in>set ad_id. is_digit c) \<and>
              cookie = pre @ ''kjrva='' @ ad_id @ post \<and>
              (post = [] \<or> \<not> is_digit (hd post))"
      by blast
  qed
qed

declare contains.simps [simp del] re_search.simps [simp del]

lemma demo_token: "re_search initial_xsrf_at demo_form_page = Some ''tok1''"
  by (simp add: re_search.simps demo_form_page_def initial_xsrf_at_def starts_with_def
      greedy_upto_def is_space_def quote_def)

lemma demo_xsrf:
  "get_token (demo_post_env h) demo_form_page ''ca.kijiji.xsrf.token'' s = (Inr ''x1'', s)"
  by (simp add: get_token_def select_name_def demo_post_env_def demo_html_parser_def return_def)

lemma demo_fraud:
  "get_token (demo_post_env h) demo_form_page ''postAdForm.fraudToken'' s = (Inr ''f1'', s)"
  by (simp add: get_token_def select_name_def demo_post_env_def demo_html_parser_def return_def)

lemma demo_replace:
  "replace [backslash, CHR ''n''] [newline] demo_description = ''Line one'' @ [newline] @ ''Line two''"
  by (simp add: demo_description_def starts_with_def backslash_def newline_def)

lemma py_range_3: "py_range 0 3 = 0 # py_range 1 3"
  by (simp add: py_range_def upt_conv_Cons)

lemma demo_upload_one:
  "upload_image (demo_post_env h) tok [img] s =
     (Inr [JStr ''u1''],
      s\<lparr>sent := sent s @ [upload_request tok img], stdout := stdout s @ [success_line 0]\<rparr>)"
proof -
  have srv: "server (demo_post_env h) (sent s) (upload_request tok img) =
        Some \<lparr>status_code = 200, resp_text = ''{\"thumbnailUrl\":\"u1\"}'', resp_headers = Map.empty\<rparr>"
    by (simp add: demo_post_env_def demo_post_site_def upload_request_def post_request_def
        image_upload_url_def post_ad_page_url_def)
  have y: "attempt_yields (demo_post_env h)
        \<lparr>status_code = 200, resp_text = ''{\"thumbnailUrl\":\"u1\"}'', resp_headers = Map.empty\<rparr>
        (JStr ''u1'')"
    by (simp add: attempt_yields_def ok_status_def demo_post_env_def demo_json_loads_def)
  from upload_tries_success_step [OF srv y, of 0 "py_range 1 3" "[]"]
  show ?thesis
    by (simp add: upload_image_def py_range_3 bind_def return_def)
qed

lemma demo_page:
  "server (demo_post_env h) hist (get_request post_ad_page_url []) =
     Some \<lparr>status_code = 200, resp_text = demo_form_page, resp_headers = Map.empty\<rparr>"
  by (simp add: demo_post_env_def demo_post_site_def get_request_def)

lemma demo_form:
  assumes "d ''postAdForm.description'' = Some demo_description"
    and "upload_image (demo_post_env h) ''tok1'' imgs
           (s\<lparr>sent := sent s @ [get_request post_ad_page_url []]\<rparr>) = (Inr urls, s1)"
    and "str_items urls = Inr image_list"
  shows "post_ad_form (demo_post_env h) imgs (d, s) =
     (Inr (),
      (d(''images'' \<mapsto> join '','' image_list,
         ''ca.kijiji.xsrf.token'' \<mapsto> ''x1'',
         ''postAdForm.fraudToken'' \<mapsto> ''f1'',
         ''postAdForm.description'' \<mapsto> ''Line one'' @ [newline] @ ''Line two''),
       s1))"
  using assms
  by (simp add: post_ad_form_def data_simps session_get_def session_send_def demo_page demo_token
      demo_xsrf demo_fraud demo_replace bind_lift_result data_set_apply on_session_apply)

lemma demo_form_no_images:
  assumes "d ''postAdForm.description'' = Some demo_description"
  shows "post_ad_form (demo_post_env h) [] (d, state0) =
     (Inr (),
      (d(''images'' \<mapsto> [],
         ''ca.kijiji.xsrf.token'' \<mapsto> ''x1'',
         ''postAdForm.fraudToken'' \<mapsto> ''f1'',
         ''postAdForm.description'' \<mapsto> ''Line one'' @ [newline] @ ''Line two''),
       state0\<lparr>sent := [get_request post_ad_page_url []]\<rparr>))"
  using assms demo_form [where d = d and h = h and imgs = "[]" and s = state0 and urls = "[]"
      and image_list = "[]" and ?s1.0 = "state0\<lparr>sent := [get_request post_ad_page_url []]\<rparr>"]
  by (simp add: upload_image_Nil)

lemma demo_form_one_image:
  assumes "d ''postAdForm.description'' = Some demo_description"
  shows "post_ad_form (demo_post_env h) [''A''] (d, state0) =
     (Inr (),
      (d(''images'' \<mapsto> ''u1'',
         ''ca.kijiji.xsrf.token'' \<mapsto> ''x1'',
         ''postAdForm.fraudToken'' \<mapsto> ''f1'',
         ''postAdForm.description'' \<mapsto> ''Line one'' @ [newline] @ ''Line two''),
       state0\<lparr>sent := [get_request post_ad_page_url [], upload_request ''tok1'' ''A''],
              stdout := [success_line 0]\<rparr>))"
  using assms demo_form [where d = d and h = h and imgs = "[''A'']" and s = state0
      and urls = "[JStr ''u1'']" and image_list = "[''u1'']"
      and ?s1.0 = "state0\<lparr>sent := [get_request post_ad_page_url [], upload_request ''tok1'' ''A''],
              stdout := [success_line 0]\<rparr>"]
  by (simp add: demo_upload_one state0_def)

lemma demo_submit_answer:
  "server (demo_post_env h) hist (post_request new_ad_url d [] []) =
     Some \<lparr>status_code = 200, resp_text = ''<h1>Delete Ad?</h1>'', resp_headers = h\<rparr>"
  by (simp add: demo_post_env_def demo_post_site_def post_request_def new_ad_url_def
      post_ad_page_url_def image_upload_url_def)

lemma demo_marker: "contains ''Delete Ad?'' ''<h1>Delete Ad?</h1>''"
  by (simp add: contains.simps starts_with_def)

lemma demo_kjrva: "re_search kjrva_at ''kjrva=123456; Path=/'' = Some ''123456''"
  by (simp add: re_search.simps kjrva_at_def starts_with_def is_digit_def)

lemma demo_submit:
  "fst (post_ad_submit (demo_post_env demo_cookie) (d, s)) = Inr ''123456''"
  using post_ad_submit_success [of "demo_post_env demo_cookie" s d, OF demo_submit_answer]
  by (simp add: demo_marker demo_cookie_def demo_kjrva)

lemma demo_ad_description [simp]:
  "demo_ad t ''postAdForm.description'' = Some demo_description"
  "demo_ad_untitled ''postAdForm.description'' = Some demo_description"
  "demo_ad t ''postAdForm.title'' = Some t"
  "demo_ad_untitled ''postAdForm.title'' = None"
  by (simp_all add: demo_ad_def demo_ad_untitled_def)

theorem title_length_validation_witness:
  "fst (post_ad_using_data (demo_post_env demo_cookie) []
         (demo_ad (replicate 10 (CHR ''a'')), state0)) = Inr ''123456'' \<and>
   fst (post_ad_using_data (demo_post_env demo_cookie) []
         (demo_ad (replicate 64 (CHR ''a'')), state0)) = Inr ''123456'' \<and>
   fst (post_ad_using_data (demo_post_env demo_cookie) []
         (demo_ad (replicate 9 (CHR ''a'')), state0))
     = Inl (KijijiApiException title_too_short []) \<and>
   fst (post_ad_using_data (demo_post_env demo_cookie) []
         (demo_ad (replicate 65 (CHR ''a'')), state0))
     = Inl (KijijiApiException title_too_long []) \<and>
   fst (post_ad_using_data (demo_post_env demo_cookie) [] (demo_ad_untitled, state0))
     = Inl (KijijiApiException title_too_short [])"
proof -
  let ?e = "demo_post_env demo_cookie"
  have t10: "fst (post_ad_using_data ?e [] (demo_ad (replicate 10 (CHR ''a'')), state0))
      = Inr ''123456''"
    using title_length_validation [where env = ?e and image_files = "[]"
        and data = "demo_ad (replicate 10 (CHR ''a''))" and s = state0
        and title = "replicate 10 (CHR ''a'')"]
      demo_form_no_images [of "demo_ad (replicate 10 (CHR ''a''))" demo_cookie]
    by (simp add: demo_submit)
  have t64: "fst (post_ad_using_data ?e [] (demo_ad (replicate 64 (CHR ''a'')), state0))
      = Inr ''123456''"
    using title_length_validation [where env = ?e and image_files = "[]"
        and data = "demo_ad (replicate 64 (CHR ''a''))" and s = state0
        and title = "replicate 64 (CHR ''a'')"]
      demo_form_no_images [of "demo_ad (replicate 64 (CHR ''a''))" demo_cookie]
    by (simp add: demo_submit)
  have t9: "fst (post_ad_using_data ?e [] (demo_ad (replicate 9 (CHR ''a'')), state0))
      = Inl (KijijiApiException title_too_short [])"
    using title_length_validation [where env = ?e and image_files = "[]"
        and data = "demo_ad (replicate 9 (CHR ''a''))" and s = state0
        and title = "replicate 9 (CHR ''a'')"]
      demo_form_no_images [of "demo_ad (replicate 9 (CHR ''a''))" demo_cookie]
    by simp
  have t65: "fst (post_ad_using_data ?e [] (demo_ad (replicate 65 (CHR ''a'')), state0))
      = Inl (KijijiApiException title_too_long [])"
    using title_length_validation [where env = ?e and image_files = "[]"
        and data = "demo_ad (replicate 65 (CHR ''a''))" and s = state0
        and title = "replicate 65 (CHR ''a'')"]
      demo_form_no_images [of "demo_ad (replicate 65 (CHR ''a''))" demo_cookie]
    by simp
  have t0: "fst (post_ad_using_data ?e [] (demo_ad_untitled, state0))
      = Inl (KijijiApiException title_too_short [])"
    using title_length_validation [where env = ?e and image_files = "[]"
        and data = demo_ad_untitled and s = state0]
      demo_form_no_images [of demo_ad_untitled demo_cookie]
    by simp
  from t10 t64 t9 t65 t0 show ?thesis by simp
qed

lemma demo_short_title:
  "post_ad_using_data (demo_post_env h) [''A''] (demo_ad ''Too short'', state0) =
     (Inl (KijijiApiException title_too_short []),
      ((demo_ad ''Too short'')
         (''images'' \<mapsto> ''u1'',
          ''ca.kijiji.xsrf.token'' \<mapsto> ''x1'',
          ''postAdForm.fraudToken'' \<mapsto> ''f1'',
          ''postAdForm.description'' \<mapsto> ''Line one'' @ [newline] @ ''Line two''),
       state0\<lparr>sent := [get_request post_ad_page_url [], upload_request ''tok1'' ''A''],
              stdout := [success_line 0]\<rparr>))"
  using post_ad_after_form [OF demo_form_one_image [of "demo_ad ''Too short''" h]]
  by simp

text \<open>With a title of nine characters and one image, the call ends in the too-short
  error after the GET of the posting page and the upload of the image have been sent.\<close>

theorem validation_first_counterexample:
  "fst (post_ad_using_data (demo_post_env demo_cookie) [''A''] (demo_ad ''Too short'', state0))
     = Inl (KijijiApiException title_too_short []) \<and>
   sent (snd (snd (post_ad_using_data (demo_post_env demo_cookie) [''A'']
                    (demo_ad ''Too short'', state0))))
     = [get_request post_ad_page_url [], upload_request ''tok1'' ''A''] \<and>
   sent state0 = []"
  by (simp add: demo_short_title)

theorem invalid_title_not_submitted_witness:
  "invalid_title (demo_ad ''Too short'') \<and>
   (\<exists>e. fst (post_ad_using_data (demo_post_env demo_cookie) [''A'']
              (demo_ad ''Too short'', state0)) = Inl e) \<and>
   new_ad_url \<notin> req_url ` set (sent (snd (snd (post_ad_using_data (demo_post_env demo_cookie)
                                   [''A''] (demo_ad ''Too short'', state0)))))"
proof -
  have inv: "invalid_title (demo_ad ''Too short'')" by (simp add: invalid_title_def)
  from invalid_title_not_submitted [where data = "demo_ad ''Too short''"
      and env = "demo_post_env demo_cookie" and image_files = "[''A'']" and s = state0] inv
  obtain e new where
    "fst (post_ad_using_data (demo_post_env demo_cookie) [''A''] (demo_ad ''Too short'', state0)) = Inl e"
    "sent (snd (snd (post_ad_using_data (demo_post_env demo_cookie) [''A'']
        (demo_ad ''Too short'', state0)))) = sent state0 @ get_request post_ad_page_url [] # new"
    "\<forall>rq\<in>set (get_request post_ad_page_url [] # new). req_url rq \<noteq> new_ad_url"
    by blast
  with inv show ?thesis by auto
qed

theorem title_error_after_mutation_witness:
  "fst (post_ad_using_data (demo_post_env demo_cookie) [''A''] (demo_ad ''Too short'', state0))
     = Inl (KijijiApiException title_too_short []) \<and>
   demo_ad ''Too short'' ''images'' = None \<and>
   fst (snd (post_ad_using_data (demo_post_env demo_cookie) [''A'']
              (demo_ad ''Too short'', state0))) ''images'' = Some ''u1'' \<and>
   fst (snd (post_ad_using_data (demo_post_env demo_cookie) [''A'']
              (demo_ad ''Too short'', state0))) ''ca.kijiji.xsrf.token'' = Some ''x1'' \<and>
   fst (snd (post_ad_using_data (demo_post_env demo_cookie) [''A'']
              (demo_ad ''Too short'', state0))) ''postAdForm.fraudToken'' = Some ''f1'' \<and>
   fst (snd (post_ad_using_data (demo_post_env demo_cookie) [''A'']
              (demo_ad ''Too short'', state0))) ''postAdForm.description''
     = Some (''Line one'' @ [newline] @ ''Line two'')"
proof -
  let ?e = "demo_post_env demo_cookie"
  let ?g = "get_request post_ad_page_url []"
  define data' where "data' = fst (snd (post_ad_using_data ?e [''A''] (demo_ad ''Too short'', state0)))"
  define s' where "s' = snd (snd (post_ad_using_data ?e [''A''] (demo_ad ''Too short'', state0)))"
  have R: "post_ad_using_data ?e [''A''] (demo_ad ''Too short'', state0) =
      (Inl (KijijiApiException title_too_short []), (data', s'))"
    by (simp add: data'_def s'_def demo_short_title)
  from title_error_after_mutation [where env = ?e and image_files = "[''A'']"
      and data = "demo_ad ''Too short''" and s = state0 and m = title_too_short and p = "[]"
      and data' = data' and s' = s'] R
  obtain resp tok urls image_list t1 t2 d where
    w: "server ?e (sent state0) ?g = Some resp"
      "re_search initial_xsrf_at (resp_text resp) = Some tok"
      "upload_image ?e tok [''A''] (state0\<lparr>sent := sent state0 @ [?g]\<rparr>) = (Inr urls, s')"
      "str_items urls = Inr image_list"
      "get_token ?e (resp_text resp) ''ca.kijiji.xsrf.token'' s' = (Inr t1, s')"
      "get_token ?e (resp_text resp) ''postAdForm.fraudToken'' s' = (Inr t2, s')"
      "demo_ad ''Too short'' ''postAdForm.description'' = Some d"
      "data' ''images'' = Some (join '','' image_list)"
      "data' ''ca.kijiji.xsrf.token'' = Some t1"
      "data' ''postAdForm.fraudToken'' = Some t2"
      "data' ''postAdForm.description'' = Some (replace [backslash, CHR ''n''] [newline] d)"
    by blast
  from w(1) have resp: "resp_text resp = demo_form_page" by (auto simp: demo_page)
  from w(2) have tok: "tok = ''tok1''" by (simp add: resp demo_token)
  from w(3) have urls: "urls = [JStr ''u1'']" by (simp add: tok demo_upload_one)
  from w(4) have il: "image_list = [''u1'']" by (simp add: urls)
  from w(5) have t1: "t1 = ''x1''" by (simp add: resp demo_xsrf)
  from w(6) have t2: "t2 = ''f1''" by (simp add: resp demo_fraud)
  from w(7) have d: "d = demo_description" by simp
  from R have r1: "fst (post_ad_using_data ?e [''A''] (demo_ad ''Too short'', state0))
      = Inl (KijijiApiException title_too_short [])" by simp
  have none: "demo_ad ''Too short'' ''images'' = None" by (simp add: demo_ad_def)
  from w(8-11) have k: "data' ''images'' = Some ''u1''"
    "data' ''ca.kijiji.xsrf.token'' = Some ''x1''"
    "data' ''postAdForm.fraudToken'' = Some ''f1''"
    "data' ''postAdForm.description'' = Some (''Line one'' @ [newline] @ ''Line two'')"
    by (simp_all add: il t1 t2 d demo_replace)
  from r1 none k [unfolded data'_def] show ?thesis by blast
qed

lemma kjrva_absent:
  "re_search kjrva_at cookie = None \<longleftrightarrow>
     \<not> (\<exists>pre d post. cookie = pre @ ''kjrva='' @ d # post \<and> is_digit d)"
  unfolding re_search_None kjrva_at_None by blast

lemma demo_no_kjrva: "re_search kjrva_at ''session=abc'' = None"
  by (simp add: re_search.simps kjrva_at_def starts_with_def)

theorem ad_id_from_cookie_witness:
  "fst (post_ad_using_data (demo_post_env Map.empty) [] (demo_ad ''A valid title'', state0))
     = Inl KeyError \<and>
   fst (post_ad_using_data (demo_post_env [''set-cookie'' \<mapsto> ''session=abc'']) []
         (demo_ad ''A valid title'', state0)) = Inl AttributeError \<and>
   fst (post_ad_using_data (demo_post_env demo_cookie) [] (demo_ad ''A valid title'', state0))
     = Inr ''123456''"
proof -
  let ?d = "demo_ad ''A valid title''"
  note inst = ad_id_from_cookie [where image_files = "[]" and data = ?d and s = state0
      and title = "''A valid title''"
      and ?s1.0 = "state0\<lparr>sent := [get_request post_ad_page_url []]\<rparr>"
      and ?data1.0 = "?d(''images'' \<mapsto> [],
         ''ca.kijiji.xsrf.token'' \<mapsto> ''x1'',
         ''postAdForm.fraudToken'' \<mapsto> ''f1'',
         ''postAdForm.description'' \<mapsto> ''Line one'' @ [newline] @ ''Line two'')"]
  have a: "fst (post_ad_using_data (demo_post_env Map.empty) [] (?d, state0)) = Inl KeyError"
    using inst [where env = "demo_post_env Map.empty"
        and resp = "\<lparr>status_code = 200, resp_text = ''<h1>Delete Ad?</h1>'', resp_headers = Map.empty\<rparr>"]
    by (simp add: demo_form_no_images demo_submit_answer demo_marker)
  have b: "fst (post_ad_using_data (demo_post_env [''set-cookie'' \<mapsto> ''session=abc'']) []
         (?d, state0)) = Inl AttributeError"
    using inst [where env = "demo_post_env [''set-cookie'' \<mapsto> ''session=abc'']"
        and resp = "\<lparr>status_code = 200, resp_text = ''<h1>Delete Ad?</h1>'',
                     resp_headers = [''set-cookie'' \<mapsto> ''session=abc'']\<rparr>"]
      demo_no_kjrva
    by (simp add: demo_form_no_images demo_submit_answer demo_marker kjrva_absent)
  have present: "\<exists>pre d post. ''kjrva=123456; Path=/'' = pre @ ''kjrva='' @ d # post \<and> is_digit d"
    using demo_kjrva kjrva_absent [of "''kjrva=123456; Path=/''"] by simp
  have c: "fst (post_ad_using_data (demo_post_env demo_cookie) [] (?d, state0)) = Inr ''123456''"
    using inst [where env = "demo_post_env demo_cookie"
        and resp = "\<lparr>status_code = 200, resp_text = ''<h1>Delete Ad?</h1>'',
                     resp_headers = demo_cookie\<rparr>"]
      present
    by (auto simp add: demo_form_no_images demo_submit_answer demo_marker demo_cookie_def demo_kjrva)
  from a b c show ?thesis by simp
qed



lemma demo_scrape_env_simps [simp]:
  "strftime demo_scrape_env = ''20200101T000000''"
  "html_parser demo_scrape_env = demo_scrape_parser"
  "json_loads demo_scrape_env = demo_scrape_loads"
  by (simp_all add: demo_scrape_env_def)

lemma state0_simps [simp]:
  "files state0 = Map.empty" "stdout state0 = []"
  by (simp_all add: state0_def)

subsection \<open>The extractors\<close>





















subsection \<open>\<^verbatim>\<open>login\<close>\<close>

lemma is_logged_in_run:
  "is_logged_in env t =
     (case server env (sent t) (get_request my_ads_probe_url []) of
        None \<Rightarrow> (Inl RequestException, t\<lparr>sent := sent t @ [get_request my_ads_probe_url []]\<rparr>)
      | Some r \<Rightarrow>
          (Inr (contains ''Sign Out'' (resp_text r)),
           t\<lparr>sent := sent t @ [get_request my_ads_probe_url []]\<rparr>))"
  by (simp add: is_logged_in_def session_get_def step_simps return_def split: option.splits)

lemma is_logged_in_probe:
  assumes "server env (sent t) (get_request my_ads_probe_url []) = Some r"
  shows "is_logged_in env t =
         (Inr (contains ''Sign Out'' (resp_text r)),
          t\<lparr>sent := sent t @ [get_request my_ads_probe_url []]\<rparr>)"
  using assms
  by (simp add: is_logged_in_def session_get_def step_simps return_def)

text \<open>
  C8, as amended. When the login page is served and yields the hidden token and the
  \<^verbatim>\<open>targetUrl\<close> of its page data, \<^verbatim>\<open>login\<close> sends three requests: the GET of the login
  page, the POST of the credentials with the token and the target URL, and the probe of
  the ads page. When the probe's answer contains \<^verbatim>\<open>Sign Out\<close>, it returns; when it does
  not, it raises the \<open>KijijiApiException\<close> with the login message, and the body of the
  answer to the POST is appended to the dump file named after the clock when that body is
  not empty; for an empty body no file is written and the exception carries no file name.
\<close>

theorem login_verifies:
  "server env (sent s) (get_request login_url []) = Some page \<and>
   get_token env (resp_text page) ''ca.kijiji.xsrf.token''
     (s\<lparr>sent := sent s @ [get_request login_url []]\<rparr>)
     = (Inr token, s\<lparr>sent := sent s @ [get_request login_url []]\<rparr>) \<and>
   get_kj_data env (resp_text page) (s\<lparr>sent := sent s @ [get_request login_url []]\<rparr>)
     = (Inr kj_data, s\<lparr>sent := sent s @ [get_request login_url []]\<rparr>) \<and>
   getitem kj_data ''config'' = Inr config \<and> getitem config ''targetUrl'' = Inr target \<and>
   server env (sent s @ [get_request login_url []])
     (post_request login_url (login_payload username password token target) [] []) = Some resp \<and>
   server env (sent s @ [get_request login_url [],
                         post_request login_url (login_payload username password token target) [] []])
     (get_request my_ads_probe_url []) = Some ads_page
   \<longrightarrow>
     (contains ''Sign Out'' (resp_text ads_page) \<longrightarrow>
        login env username password s =
          (Inr (),
           s\<lparr>sent := sent s @ [get_request login_url [],
                  post_request login_url (login_payload username password token target) [] [],
                  get_request my_ads_probe_url []]\<rparr>)) \<and>
     (\<not> contains ''Sign Out'' (resp_text ads_page) \<and> resp_text resp \<noteq> [] \<longrightarrow>
        login env username password s =
          (Inl (KijijiApiException login_failed_message (dump_path env)),
           s\<lparr>sent := sent s @ [get_request login_url [],
                  post_request login_url (login_payload username password token target) [] [],
                  get_request my_ads_probe_url []],
             files := (files s)(dump_path env \<mapsto>
                (case files s (dump_path env) of
                   None \<Rightarrow> resp_text resp
                 | Some old \<Rightarrow> old @ resp_text resp))\<rparr>)) \<and>
     (\<not> contains ''Sign Out'' (resp_text ads_page) \<and> resp_text resp = [] \<longrightarrow>
        login env username password s =
          (Inl (KijijiApiException login_failed_message []),
           s\<lparr>sent := sent s @ [get_request login_url [],
                  post_request login_url (login_payload username password token target) [] [],
                  get_request my_ads_probe_url []]\<rparr>))"
proof (intro impI)
  let ?g = "get_request login_url []"
  let ?p = "post_request login_url (login_payload username password token target) [] []"
  let ?s1 = "s\<lparr>sent := sent s @ [?g]\<rparr>"
  let ?s2 = "s\<lparr>sent := sent s @ [?g, ?p]\<rparr>"
  assume h: "server env (sent s) ?g = Some page \<and>
   get_token env (resp_text page) ''ca.kijiji.xsrf.token'' ?s1 = (Inr token, ?s1) \<and>
   get_kj_data env (resp_text page) ?s1 = (Inr kj_data, ?s1) \<and>
   getitem kj_data ''config'' = Inr config \<and> getitem config ''targetUrl'' = Inr target \<and>
   server env (sent s @ [?g]) ?p = Some resp \<and>
   server env (sent s @ [?g, ?p]) (get_request my_ads_probe_url []) = Some ads_page"
  have probe: "is_logged_in env ?s2 =
      (Inr (contains ''Sign Out'' (resp_text ads_page)),
       ?s2\<lparr>sent := sent ?s2 @ [get_request my_ads_probe_url []]\<rparr>)"
    by (rule is_logged_in_probe) (use h in simp)
  have run: "login env username password s =
      (if \<not> contains ''Sign Out'' (resp_text ads_page)
       then raise_api env ''Could not log in.'' (Some (resp_text resp))
              (s\<lparr>sent := sent s @ [?g, ?p, get_request my_ads_probe_url []]\<rparr>)
       else (Inr (), s\<lparr>sent := sent s @ [?g, ?p, get_request my_ads_probe_url []]\<rparr>))"
    using h probe
    by (simp add: login_def session_get_def session_post_def step_simps bind_def [of "get_token _ _ _"]
        bind_def [of "get_kj_data _ _"] bind_def [of "is_logged_in _"] return_def)
  show "(contains ''Sign Out'' (resp_text ads_page) \<longrightarrow>
        login env username password s =
          (Inr (), s\<lparr>sent := sent s @ [?g, ?p, get_request my_ads_probe_url []]\<rparr>)) \<and>
     (\<not> contains ''Sign Out'' (resp_text ads_page) \<and> resp_text resp \<noteq> [] \<longrightarrow>
        login env username password s =
          (Inl (KijijiApiException login_failed_message (dump_path env)),
           s\<lparr>sent := sent s @ [?g, ?p, get_request my_ads_probe_url []],
             files := (files s)(dump_path env \<mapsto>
                (case files s (dump_path env) of
                   None \<Rightarrow> resp_text resp
                 | Some old \<Rightarrow> old @ resp_text resp))\<rparr>)) \<and>
     (\<not> contains ''Sign Out'' (resp_text ads_page) \<and> resp_text resp = [] \<longrightarrow>
        login env username password s =
          (Inl (KijijiApiException login_failed_message []),
           s\<lparr>sent := sent s @ [?g, ?p, get_request my_ads_probe_url []]\<rparr>))"
    unfolding run by (simp add: raise_api_def append_file_def login_failed_message_def)
qed

lemma demo_login_env_simps [simp]:
  "strftime (demo_login_env body ads_text) = ''20200101T000000''"
  "html_parser (demo_login_env body ads_text) = demo_login_parser"
  "json_loads (demo_login_env body ads_text) = demo_login_loads"
  "server (demo_login_env body ads_text) = demo_login_site body ads_text"
  by (simp_all add: demo_login_env_def)

lemma demo_login_site_simps:
  "demo_login_site body ads_text hist (get_request login_url []) =
     Some \<lparr>status_code = 200, resp_text = demo_login_page, resp_headers = Map.empty\<rparr>"
  "demo_login_site body ads_text hist (post_request login_url d [] []) =
     Some \<lparr>status_code = 200, resp_text = body, resp_headers = Map.empty\<rparr>"
  "demo_login_site body ads_text hist (get_request my_ads_probe_url []) =
     Some \<lparr>status_code = 200, resp_text = ads_text, resp_headers = Map.empty\<rparr>"
  by (simp_all add: demo_login_site_def get_request_def post_request_def login_url_def
      my_ads_probe_url_def)

lemma demo_login_token:
  "get_token (demo_login_env body ads_text) demo_login_page ''ca.kijiji.xsrf.token'' s
     = (Inr ''x1'', s)"
  by (simp add: get_token_def select_name_def demo_login_parser_def return_def)

lemma demo_login_match:
  \<open>re_search window_data_at demo_login_script = Some ''{"config":{"targetUrl":"/home"}}''\<close>
  by (simp add: re_search.simps demo_login_script_def window_data_at_def starts_with_def
      greedy_upto_def newline_def)

lemma demo_login_data:
  "get_kj_data (demo_login_env body ads_text) demo_login_page s
     = (Inr (JObj [(''config'', JObj [(''targetUrl'', JStr ''/home'')])]), s)"
  by (simp add: get_kj_data_def inline_scripts_def demo_login_parser_def demo_login_match
      loads_def lift_result_def demo_login_loads_def)

lemma demo_signed_out: "\<not> contains ''Sign Out'' ''<a>Sign In</a>''"
  by (simp add: contains.simps starts_with_def)

lemma demo_signed_in: "contains ''Sign Out'' ''<a>Sign Out</a>''"
  by (simp add: contains.simps starts_with_def)

lemma demo_login_run:
  "login (demo_login_env body ads_text) ''user'' ''secret'' state0 =
     (if \<not> contains ''Sign Out'' ads_text
      then raise_api (demo_login_env body ads_text) ''Could not log in.'' (Some body)
             (state0\<lparr>sent := [get_request login_url [],
                post_request login_url (login_payload ''user'' ''secret'' ''x1'' (JStr ''/home'')) [] [],
                get_request my_ads_probe_url []]\<rparr>)
      else (Inr (), state0\<lparr>sent := [get_request login_url [],
                post_request login_url (login_payload ''user'' ''secret'' ''x1'' (JStr ''/home'')) [] [],
                get_request my_ads_probe_url []]\<rparr>))"
  by (simp add: login_def is_logged_in_run session_get_def session_post_def step_simps
      demo_login_site_simps bind_def [of "get_token _ _ _"] bind_def [of "get_kj_data _ _"]
      bind_def [of "is_logged_in _"] demo_login_token demo_login_data return_def)

text \<open>The claim as stated fails when the answer to the login POST has an empty body: the
  exception carries no dump, and no file is written.\<close>

theorem login_dump_counterexample:
  "\<not> contains ''Sign Out'' ''<a>Sign In</a>'' \<and>
   login (demo_login_env [] ''<a>Sign In</a>'') ''user'' ''secret'' state0 =
     (Inl (KijijiApiException login_failed_message []),
      state0\<lparr>sent := [get_request login_url [],
         post_request login_url (login_payload ''user'' ''secret'' ''x1'' (JStr ''/home'')) [] [],
         get_request my_ads_probe_url []]\<rparr>) \<and>
   files state0 = Map.empty"
  by (simp add: demo_login_run demo_signed_out raise_api_def login_failed_message_def)

theorem login_verifies_witness:
  "login (demo_login_env ''<p>Welcome</p>'' ''<a>Sign Out</a>'') ''user'' ''secret'' state0 =
     (Inr (),
      state0\<lparr>sent := [get_request login_url [],
         post_request login_url (login_payload ''user'' ''secret'' ''x1'' (JStr ''/home'')) [] [],
         get_request my_ads_probe_url []]\<rparr>) \<and>
   login (demo_login_env ''<p>Wrong password</p>'' ''<a>Sign In</a>'') ''user'' ''secret'' state0 =
     (Inl (KijijiApiException login_failed_message ''kijijiapi_dump_20200101T000000.txt''),
      state0\<lparr>sent := [get_request login_url [],
         post_request login_url (login_payload ''user'' ''secret'' ''x1'' (JStr ''/home'')) [] [],
         get_request my_ads_probe_url []],
        files := [''kijijiapi_dump_20200101T000000.txt'' \<mapsto> ''<p>Wrong password</p>'']\<rparr>) \<and>
   login (demo_login_env [] ''<a>Sign In</a>'') ''user'' ''secret'' state0 =
     (Inl (KijijiApiException login_failed_message []),
      state0\<lparr>sent := [get_request login_url [],
         post_request login_url (login_payload ''user'' ''secret'' ''x1'' (JStr ''/home'')) [] [],
         get_request my_ads_probe_url []]\<rparr>)"
proof -
  note inst = login_verifies [where s = state0 and username = "''user''" and password = "''secret''"
      and token = "''x1''" and target = "JStr ''/home''"
      and config = "JObj [(''targetUrl'', JStr ''/home'')]"
      and kj_data = "JObj [(''config'', JObj [(''targetUrl'', JStr ''/home'')])]"
      and page = "\<lparr>status_code = 200, resp_text = demo_login_page, resp_headers = Map.empty\<rparr>"]
  have a: "login (demo_login_env ''<p>Welcome</p>'' ''<a>Sign Out</a>'') ''user'' ''secret'' state0 =
     (Inr (),
      state0\<lparr>sent := [get_request login_url [],
         post_request login_url (login_payload ''user'' ''secret'' ''x1'' (JStr ''/home'')) [] [],
         get_request my_ads_probe_url []]\<rparr>)"
    using inst [where env = "demo_login_env ''<p>Welcome</p>'' ''<a>Sign Out</a>''"
        and resp = "\<lparr>status_code = 200, resp_text = ''<p>Welcome</p>'', resp_headers = Map.empty\<rparr>"
        and ads_page = "\<lparr>status_code = 200, resp_text = ''<a>Sign Out</a>'', resp_headers = Map.empty\<rparr>"]
    by (simp add: demo_login_site_simps demo_login_token demo_login_data demo_signed_in)
  have b: "login (demo_login_env ''<p>Wrong password</p>'' ''<a>Sign In</a>'') ''user'' ''secret'' state0 =
     (Inl (KijijiApiException login_failed_message ''kijijiapi_dump_20200101T000000.txt''),
      state0\<lparr>sent := [get_request login_url [],
         post_request login_url (login_payload ''user'' ''secret'' ''x1'' (JStr ''/home'')) [] [],
         get_request my_ads_probe_url []],
        files := [''kijijiapi_dump_20200101T000000.txt'' \<mapsto> ''<p>Wrong password</p>'']\<rparr>)"
    using inst [where env = "demo_login_env ''<p>Wrong password</p>'' ''<a>Sign In</a>''"
        and resp = "\<lparr>status_code = 200, resp_text = ''<p>Wrong password</p>'', resp_headers = Map.empty\<rparr>"
        and ads_page = "\<lparr>status_code = 200, resp_text = ''<a>Sign In</a>'', resp_headers = Map.empty\<rparr>"]
    by (simp add: demo_login_site_simps demo_login_token demo_login_data demo_signed_out
        dump_path_def)
  have c: "login (demo_login_env [] ''<a>Sign In</a>'') ''user'' ''secret'' state0 =
     (Inl (KijijiApiException login_failed_message []),
      state0\<lparr>sent := [get_request login_url [],
         post_request login_url (login_payload ''user'' ''secret'' ''x1'' (JStr ''/home'')) [] [],
         get_request my_ads_probe_url []]\<rparr>)"
    using inst [where env = "demo_login_env [] ''<a>Sign In</a>''"
        and resp = "\<lparr>status_code = 200, resp_text = [], resp_headers = Map.empty\<rparr>"
        and ads_page = "\<lparr>status_code = 200, resp_text = ''<a>Sign In</a>'', resp_headers = Map.empty\<rparr>"]
    by (simp add: demo_login_site_simps demo_login_token demo_login_data demo_signed_out)
  from a b c show ?thesis by blast
qed

subsection \<open>\<^verbatim>\<open>get_all_ads\<close> and \<^verbatim>\<open>delete_ad_using_title\<close>\<close>

lemma alist_update_as_map:
  "distinct (map fst al) \<Longrightarrow> k \<in> fst ` set al \<Longrightarrow>
     AList.update k v al = map (\<lambda>(k', x). if k' = k then (k, v) else (k', x)) al"
proof (induction al)
  case Nil
  then show ?case by simp
next
  case (Cons p al)
  show ?case
  proof (cases "fst p = k")
    case True
    with Cons.prems have "k \<notin> fst ` set al" by auto
    then have "map (\<lambda>(k', x). if k' = k then (k, v) else (k', x)) al = al"
      by (induction al) auto
    with True show ?thesis by (cases p) simp
  next
    case False
    with Cons.prems have "k \<in> fst ` set al" "distinct (map fst al)" by auto
    with Cons.IH False show ?thesis by (cases p) simp
  qed
qed

lemma add_ranks_merge:
  assumes "distinct (map fst ads)" "distinct (map fst ranks)"
    and "\<forall>k\<in>fst ` set ranks. \<exists>fields. map_of ads k = Some (JObj fields)"
  shows "add_ranks ranks (JObj ads) = Inr (JObj (map (\<lambda>(k, ad). (k, with_rank ranks (k, ad))) ads))"
  using assms
proof (induction ranks arbitrary: ads)
  case Nil
  have "map (\<lambda>(k, ad). (k, with_rank [] (k, ad))) ads = ads"
    by (induction ads) (auto simp: with_rank_def)
  then show ?case by simp
next
  case (Cons kr ranks)
  obtain k r where kr: "kr = (k, r)" by (cases kr)
  from Cons.prems(3) kr obtain fields where f: "map_of ads k = Some (JObj fields)" by auto
  define fields' where "fields' = AList.update ''rank'' r fields"
  define ads' where "ads' = AList.update k (JObj fields') ads"
  from f have "(k, JObj fields) \<in> set ads" by (rule map_of_SomeD)
  then have kin: "k \<in> fst ` set ads" by force
  have step: "add_ranks (kr # ranks) (JObj ads) = add_ranks ranks (JObj ads')"
    by (simp add: kr f fields'_def ads'_def)
  have d': "distinct (map fst ads')" unfolding ads'_def using Cons.prems(1)
    by (rule distinct_update)
  from Cons.prems(2) kr have knot: "k \<notin> fst ` set ranks" and dr: "distinct (map fst ranks)"
    by auto
  have pre: "\<forall>k'\<in>fst ` set ranks. \<exists>fields. map_of ads' k' = Some (JObj fields)"
  proof
    fix k' assume k': "k' \<in> fst ` set ranks"
    with knot have "k' \<noteq> k" by auto
    then have "map_of ads' k' = map_of ads k'" by (simp add: ads'_def update_conv')
    moreover from Cons.prems(3) k' have "\<exists>fields. map_of ads k' = Some (JObj fields)" by auto
    ultimately show "\<exists>fields. map_of ads' k' = Some (JObj fields)" by simp
  qed
  note ih = Cons.IH [OF d' dr pre]
  have am: "ads' = map (\<lambda>(k', x). if k' = k then (k, JObj fields') else (k', x)) ads"
    unfolding ads'_def using Cons.prems(1) kin by (rule alist_update_as_map)
  from knot have none: "map_of ranks k = None" by (simp add: map_of_eq_None_iff)
  have "map (\<lambda>(k', ad). (k', with_rank ranks (k', ad))) ads' =
        map (\<lambda>(k', ad). (k', with_rank (kr # ranks) (k', ad))) ads"
    unfolding am map_map
  proof (rule map_cong [OF refl])
    fix p assume p: "p \<in> set ads"
    obtain k' x where px: "p = (k', x)" by (cases p)
    show "((\<lambda>(k', ad). (k', with_rank ranks (k', ad))) \<circ>
           (\<lambda>(k', x). if k' = k then (k, JObj fields') else (k', x))) p =
          (\<lambda>(k', ad). (k', with_rank (kr # ranks) (k', ad))) p"
    proof (cases "k' = k")
      case True
      with p px Cons.prems(1) have "map_of ads k = Some x" by simp
      with f have "x = JObj fields" by simp
      with True px none show ?thesis by (simp add: with_rank_def kr fields'_def)
    next
      case False
      with px show ?thesis by (simp add: with_rank_def kr)
    qed
  qed
  with ih step show ?case by simp
qed

lemma id_params_all:
  "list_all2 (\<lambda>ad i. getitem ad ''id'' = Inr i) xs ids \<Longrightarrow>
     id_params xs = Inr (map (Pair ''ids'') ids)"
  by (induction xs ids rule: list_all2_induct) simp_all

lemma bind_assoc: "bind (bind m f) g = bind m (\<lambda>x. bind (f x) g)"
  by (rule ext) (simp add: bind_def split: prod.splits sum.splits)

lemma raise_for_status_ok:
  "ok_status r \<Longrightarrow> bind (raise_for_status r) g s = g () s"
  by (auto simp: step_simps ok_status_def)

lemma get_all_ads_merge:
  assumes "server env (sent s) (get_request ads_url []) = Some resp" "ok_status resp"
    and "json_loads env (resp_text resp) = Some ads_json"
    and "getitem ads_json ''ads'' = Inr (JObj ads)"
    and "ads \<noteq> []"
    and "list_all2 (\<lambda>ad i. getitem ad ''id'' = Inr i) (map snd ads) ids"
    and "server env (sent s @ [get_request ads_url []])
          (get_request ranks_url (map (Pair ''ids'') ids)) = Some resp2" "ok_status resp2"
    and "json_loads env (resp_text resp2) = Some ranks_json"
    and "getitem ranks_json ''ranks'' = Inr (JObj ranks)"
    and "distinct (map fst ads)" "distinct (map fst ranks)"
    and "\<forall>k\<in>fst ` set ranks. \<exists>fields. map_of ads k = Some (JObj fields)"
  shows "get_all_ads env s =
          (Inr (map (with_rank ranks) ads),
           s\<lparr>sent := sent s @ [get_request ads_url [],
                               get_request ranks_url (map (Pair ''ids'') ids)]\<rparr>)"
proof -
  have ids: "id_params (map snd ads) = Inr (map (Pair ''ids'') ids)"
    using assms(6) by (rule id_params_all)
  have merge: "add_ranks ranks (JObj ads) =
      Inr (JObj (map (\<lambda>(k, ad). (k, with_rank ranks (k, ad))) ads))"
    using assms(11-13) by (rule add_ranks_merge)
  have vals: "snd \<circ> (\<lambda>(k, ad). (k, with_rank ranks (k, ad))) = with_rank ranks"
    by (rule ext) (simp split: prod.splits)
  from assms(1-5,7-10) ids merge vals show ?thesis
    by (simp add: get_all_ads_def session_get_def bind_assoc step_simps(1) raise_for_status_ok
        loads_def lift_result_def)
qed

text \<open>
  C2. When the ads endpoint answers with a JSON object whose \<^verbatim>\<open>ads\<close> entry is the ad
  map: for an empty map the call returns the empty list and the only request sent is the
  one to the ads endpoint; for a non-empty map whose ads carry an \<^verbatim>\<open>id\<close>, exactly one
  further request is sent, to the ranks endpoint, with one \<^verbatim>\<open>ids\<close> parameter per ad in
  the order of the map, and when it answers with ranks for keys of the ad map the call
  returns the ads in the order of the map, each with its rank merged under \<^verbatim>\<open>rank\<close>.
\<close>

theorem get_all_ads_ranks:
  "server env (sent s) (get_request ads_url []) = Some resp \<and> ok_status resp \<and>
   json_loads env (resp_text resp) = Some ads_json \<and>
   getitem ads_json ''ads'' = Inr (JObj ads)
   \<longrightarrow>
     (ads = [] \<longrightarrow>
        get_all_ads env s = (Inr [], s\<lparr>sent := sent s @ [get_request ads_url []]\<rparr>)) \<and>
     (ads \<noteq> [] \<and>
      list_all2 (\<lambda>ad i. getitem ad ''id'' = Inr i) (map snd ads) ids \<and>
      server env (sent s @ [get_request ads_url []])
        (get_request ranks_url (map (Pair ''ids'') ids)) = Some resp2 \<and>
      ok_status resp2 \<and>
      json_loads env (resp_text resp2) = Some ranks_json \<and>
      getitem ranks_json ''ranks'' = Inr (JObj ranks) \<and>
      distinct (map fst ads) \<and> distinct (map fst ranks) \<and>
      (\<forall>k\<in>fst ` set ranks. \<exists>fields. map_of ads k = Some (JObj fields))
      \<longrightarrow>
        get_all_ads env s =
          (Inr (map (with_rank ranks) ads),
           s\<lparr>sent := sent s @ [get_request ads_url [],
                               get_request ranks_url (map (Pair ''ids'') ids)]\<rparr>))"
proof (intro impI conjI)
  assume h: "server env (sent s) (get_request ads_url []) = Some resp \<and> ok_status resp \<and>
   json_loads env (resp_text resp) = Some ads_json \<and>
   getitem ads_json ''ads'' = Inr (JObj ads)"
  assume "ads = []"
  with h show "get_all_ads env s = (Inr [], s\<lparr>sent := sent s @ [get_request ads_url []]\<rparr>)"
    by (simp add: get_all_ads_def session_get_def step_simps(1) raise_for_status_ok loads_def
        return_def lift_result_def)
next
  assume h: "server env (sent s) (get_request ads_url []) = Some resp \<and> ok_status resp \<and>
   json_loads env (resp_text resp) = Some ads_json \<and>
   getitem ads_json ''ads'' = Inr (JObj ads)"
  assume k: "ads \<noteq> [] \<and>
      list_all2 (\<lambda>ad i. getitem ad ''id'' = Inr i) (map snd ads) ids \<and>
      server env (sent s @ [get_request ads_url []])
        (get_request ranks_url (map (Pair ''ids'') ids)) = Some resp2 \<and>
      ok_status resp2 \<and>
      json_loads env (resp_text resp2) = Some ranks_json \<and>
      getitem ranks_json ''ranks'' = Inr (JObj ranks) \<and>
      distinct (map fst ads) \<and> distinct (map fst ranks) \<and>
      (\<forall>k\<in>fst ` set ranks. \<exists>fields. map_of ads k = Some (JObj fields))"
  show "get_all_ads env s =
          (Inr (map (with_rank ranks) ads),
           s\<lparr>sent := sent s @ [get_request ads_url [],
                               get_request ranks_url (map (Pair ''ids'') ids)]\<rparr>)"
    by (rule get_all_ads_merge) (use h k in blast)+
qed

lemma demo_ads_env_simps [simp]:
  "server (demo_ads_env ads_text) = demo_ads_site ads_text"
  "html_parser (demo_ads_env ads_text) = demo_ads_parser"
  "json_loads (demo_ads_env ads_text) = demo_ads_loads"
  "yaml_load (demo_ads_env ads_text) = demo_yaml_load"
  "str_of (demo_ads_env ads_text) = demo_str_of"
  by (simp_all add: demo_ads_env_def)

lemma demo_ads_site_simps:
  "demo_ads_site ads_text hist (get_request ads_url []) =
     Some \<lparr>status_code = 200, resp_text = ads_text, resp_headers = Map.empty\<rparr>"
  "demo_ads_site ads_text hist (get_request ranks_url ps) =
     Some \<lparr>status_code = 200, resp_text = demo_ranks_text, resp_headers = Map.empty\<rparr>"
  "demo_ads_site ads_text hist (get_request my_ads_url []) =
     Some \<lparr>status_code = 200, resp_text = demo_my_ads_page, resp_headers = Map.empty\<rparr>"
  \<open>demo_ads_site ads_text hist (post_request delete_url d [] []) =
     Some \<lparr>status_code = 200, resp_text = ''{"status":"OK"}'', resp_headers = Map.empty\<rparr>\<close>
  by (simp_all add: demo_ads_site_def get_request_def post_request_def ads_url_def ranks_url_def
      my_ads_url_def delete_url_def)

lemma demo_ads_loads_simps:
  "demo_ads_loads demo_ads_text = Some (JObj [(''ads'', JObj demo_ads)])"
  "demo_ads_loads demo_no_ads_text = Some (JObj [(''ads'', JObj [])])"
  "demo_ads_loads demo_ranks_text =
     Some (JObj [(''ranks'', JObj [(''101'', JInt 1), (''103'', JInt 2)])])"
  by (simp_all add: demo_ads_loads_def demo_ads_text_def demo_no_ads_text_def demo_ranks_text_def)

theorem get_all_ads_ranks_witness:
  "get_all_ads (demo_ads_env demo_no_ads_text) state0 =
     (Inr [], state0\<lparr>sent := [get_request ads_url []]\<rparr>) \<and>
   get_all_ads (demo_ads_env demo_ads_text) state0 =
     (Inr [JObj [(''id'', JInt 101), (''title'', JStr ''Foo''), (''rank'', JInt 1)],
           JObj [(''id'', JInt 102), (''title'', JStr ''Foo '')],
           JObj [(''id'', JInt 103), (''title'', JStr ''Bar''), (''rank'', JInt 2)]],
      state0\<lparr>sent := [get_request ads_url [],
         get_request ranks_url [(''ids'', JInt 101), (''ids'', JInt 102), (''ids'', JInt 103)]]\<rparr>)"
proof -
  have ok: "ok_status \<lparr>status_code = 200, resp_text = t, resp_headers = Map.empty\<rparr>" for t
    by (simp add: ok_status_def)
  have a: "get_all_ads (demo_ads_env demo_no_ads_text) state0 =
     (Inr [], state0\<lparr>sent := [get_request ads_url []]\<rparr>)"
    using get_all_ads_ranks [where env = "demo_ads_env demo_no_ads_text" and s = state0
        and resp = "\<lparr>status_code = 200, resp_text = demo_no_ads_text, resp_headers = Map.empty\<rparr>"
        and ads_json = "JObj [(''ads'', JObj [])]" and ads = "[]"]
    by (simp add: demo_ads_site_simps demo_ads_loads_simps ok)
  have b: "get_all_ads (demo_ads_env demo_ads_text) state0 =
     (Inr (map (with_rank [(''101'', JInt 1), (''103'', JInt 2)]) demo_ads),
      state0\<lparr>sent := sent state0 @ [get_request ads_url [],
         get_request ranks_url (map (Pair ''ids'') [JInt 101, JInt 102, JInt 103])]\<rparr>)"
    using get_all_ads_ranks [where env = "demo_ads_env demo_ads_text" and s = state0
        and resp = "\<lparr>status_code = 200, resp_text = demo_ads_text, resp_headers = Map.empty\<rparr>"
        and ads_json = "JObj [(''ads'', JObj demo_ads)]" and ads = demo_ads
        and ids = "[JInt 101, JInt 102, JInt 103]"
        and ?resp2.0 = "\<lparr>status_code = 200, resp_text = demo_ranks_text, resp_headers = Map.empty\<rparr>"
        and ranks_json = "JObj [(''ranks'', JObj [(''101'', JInt 1), (''103'', JInt 2)])]"
        and ranks = "[(''101'', JInt 1), (''103'', JInt 2)]"]
    by (simp add: demo_ads_site_simps demo_ads_loads_simps ok) (simp add: demo_ads_def)
  from a b show ?thesis by (simp add: demo_ads_def with_rank_def)
qed

lemma delete_ad_ok:
  assumes "deletes_succeed env"
  shows "\<exists>token. delete_ad env ad_id s =
           (Inr (), s\<lparr>sent := sent s @ [get_request my_ads_url [],
                      post_request delete_url (delete_params env ad_id token) [] []]\<rparr>)"
proof -
  from assms obtain page token resp where
    h: "server env (sent s) (get_request my_ads_url []) = Some page"
      "\<forall>t. get_xsrf_token env (resp_text page) t = (Inr token, t)"
      "server env (sent s @ [get_request my_ads_url []])
          (post_request delete_url (delete_params env ad_id token) [] []) = Some resp"
      "contains ''OK'' (resp_text resp)"
    unfolding deletes_succeed_def by blast
  have "delete_ad env ad_id s =
           (Inr (), s\<lparr>sent := sent s @ [get_request my_ads_url [],
                      post_request delete_url (delete_params env ad_id token) [] []]\<rparr>)"
    using h
    by (simp add: delete_ad_def session_get_def session_post_def step_simps(1)
        bind_def [of "get_xsrf_token _ _"] return_def)
  then show ?thesis ..
qed

lemma deleted_ads_append: "deleted_ads (xs @ ys) = deleted_ads xs @ deleted_ads ys"
  by (simp add: deleted_ads_def)

lemma deleted_ads_one:
  "deleted_ads [get_request my_ads_url [], post_request delete_url (delete_params env i token) [] []]
     = [Some (JStr (delete_ads_field env i))]"
  by (simp add: deleted_ads_def get_request_def post_request_def delete_params_def
      my_ads_url_def delete_url_def)

lemma delete_matching_ok:
  assumes "deletes_succeed env"
    and "list_all2 (\<lambda>ad (t, i). getitem ad ''title'' = Inr (JStr t) \<and> getitem ad ''id'' = Inr i)
           all_ads tis"
  shows "\<exists>s' new. delete_matching env title all_ads s = (Inr (), s') \<and>
           sent s' = sent s @ new \<and>
           deleted_ads new =
             map (\<lambda>(t, i). Some (JStr (delete_ads_field env i))) (filter (title_matches title) tis)"
  using assms(2)
proof (induction all_ads tis arbitrary: s rule: list_all2_induct)
  case Nil
  then show ?case by (simp add: return_def deleted_ads_def)
next
  case (Cons ad all_ads ti tis)
  obtain t i where ti: "ti = (t, i)" by (cases ti)
  from Cons.hyps(1) ti have g: "getitem ad ''title'' = Inr (JStr t)" "getitem ad ''id'' = Inr i"
    by simp_all
  show ?case
  proof (cases "strip t = strip title")
    case False
    from Cons.IH [of s] obtain s' new where
      r: "delete_matching env title all_ads s = (Inr (), s')" "sent s' = sent s @ new"
      "deleted_ads new =
         map (\<lambda>(t, i). Some (JStr (delete_ads_field env i))) (filter (title_matches title) tis)"
      by blast
    with False g ti show ?thesis
      by (intro exI [of _ s'] exI [of _ new]) (simp add: title_matches_def)
  next
    case True
    from delete_ad_ok [OF assms(1), of i s] obtain token where
      d: "delete_ad env i s =
           (Inr (), s\<lparr>sent := sent s @ [get_request my_ads_url [],
                      post_request delete_url (delete_params env i token) [] []]\<rparr>)"
      by blast
    let ?two = "[get_request my_ads_url [], post_request delete_url (delete_params env i token) [] []]"
    let ?s1 = "s\<lparr>sent := sent s @ ?two\<rparr>"
    from Cons.IH [of ?s1] obtain s' new where
      r: "delete_matching env title all_ads ?s1 = (Inr (), s')" "sent s' = sent ?s1 @ new"
      "deleted_ads new =
         map (\<lambda>(t, i). Some (JStr (delete_ads_field env i))) (filter (title_matches title) tis)"
      by blast
    have run: "delete_matching env title (ad # all_ads) s = (Inr (), s')"
      using True g d r(1) by (simp add: bind_def [of "delete_ad _ _"])
    have snt: "sent s' = sent s @ (?two @ new)" using r(2) by simp
    have del: "deleted_ads (?two @ new) =
        map (\<lambda>(t, i). Some (JStr (delete_ads_field env i))) (filter (title_matches title) (ti # tis))"
      using True ti r(3)
      by (simp only: deleted_ads_append deleted_ads_one) (simp add: title_matches_def)
    from run snt del show ?thesis by blast
  qed
qed

text \<open>
  C7. When fetching the ads succeeds with ads that carry a string title and an id, and
  every deletion succeeds on the site, \<^verbatim>\<open>delete_ad_using_title\<close> returns and the delete
  POSTs it has sent are, in order, exactly one for each ad whose stripped title equals the
  stripped given title: all the matching ads, duplicates included, and no other.
\<close>

theorem delete_by_title_deletes_matches:
  "get_all_ads env s = (Inr all_ads, s1) \<and>
   list_all2 (\<lambda>ad (t, i). getitem ad ''title'' = Inr (JStr t) \<and> getitem ad ''id'' = Inr i)
     all_ads tis \<and>
   deletes_succeed env
   \<longrightarrow>
     (\<exists>s' new. delete_ad_using_title env title s = (Inr (), s') \<and>
        sent s' = sent s1 @ new \<and>
        deleted_ads new =
          map (\<lambda>(t, i). Some (JStr (delete_ads_field env i)))
            (filter (\<lambda>(t, i). strip t = strip title) tis))"
proof (intro impI)
  assume h: "get_all_ads env s = (Inr all_ads, s1) \<and>
   list_all2 (\<lambda>ad (t, i). getitem ad ''title'' = Inr (JStr t) \<and> getitem ad ''id'' = Inr i)
     all_ads tis \<and>
   deletes_succeed env"
  then have h1: "get_all_ads env s = (Inr all_ads, s1)"
    and h2: "list_all2 (\<lambda>ad (t, i). getitem ad ''title'' = Inr (JStr t) \<and> getitem ad ''id'' = Inr i)
     all_ads tis"
    and h3: "deletes_succeed env" by blast+
  from delete_matching_ok [OF h3 h2, of title s1] obtain s' new where
    r: "delete_matching env title all_ads s1 = (Inr (), s')" "sent s' = sent s1 @ new"
    "deleted_ads new =
       map (\<lambda>(t, i). Some (JStr (delete_ads_field env i))) (filter (title_matches title) tis)"
    by blast
  have "delete_ad_using_title env title s = (Inr (), s')"
    by (simp add: delete_ad_using_title_def bind_def [of "get_all_ads _"] h1 r(1))
  moreover have "title_matches title = (\<lambda>(t, i). strip t = strip title)"
    by (simp add: title_matches_def)
  ultimately show "\<exists>s' new. delete_ad_using_title env title s = (Inr (), s') \<and>
        sent s' = sent s1 @ new \<and>
        deleted_ads new =
          map (\<lambda>(t, i). Some (JStr (delete_ads_field env i)))
            (filter (\<lambda>(t, i). strip t = strip title) tis)"
    using r(2,3) by auto
qed

lemma demo_get_all_ads:
  "get_all_ads (demo_ads_env demo_ads_text) state0 =
     (Inr (map (with_rank [(''101'', JInt 1), (''103'', JInt 2)]) demo_ads),
      state0\<lparr>sent := sent state0 @ [get_request ads_url [],
         get_request ranks_url (map (Pair ''ids'') [JInt 101, JInt 102, JInt 103])]\<rparr>)"
proof (rule get_all_ads_merge)
  show "server (demo_ads_env demo_ads_text) (sent state0) (get_request ads_url []) =
      Some \<lparr>status_code = 200, resp_text = demo_ads_text, resp_headers = Map.empty\<rparr>"
    by (simp add: demo_ads_site_simps)
  show "ok_status \<lparr>status_code = 200, resp_text = demo_ads_text, resp_headers = Map.empty\<rparr>"
    by (simp add: ok_status_def)
  show "json_loads (demo_ads_env demo_ads_text)
      (resp_text \<lparr>status_code = 200, resp_text = demo_ads_text, resp_headers = Map.empty\<rparr>)
      = Some (JObj [(''ads'', JObj demo_ads)])"
    by (simp add: demo_ads_loads_simps)
  show "getitem (JObj [(''ads'', JObj demo_ads)]) ''ads'' = Inr (JObj demo_ads)" by simp
  show "demo_ads \<noteq> []" by (simp add: demo_ads_def)
  show "list_all2 (\<lambda>ad i. getitem ad ''id'' = Inr i) (map snd demo_ads)
      [JInt 101, JInt 102, JInt 103]"
    by (simp add: demo_ads_def)
  show "server (demo_ads_env demo_ads_text) (sent state0 @ [get_request ads_url []])
      (get_request ranks_url (map (Pair ''ids'') [JInt 101, JInt 102, JInt 103])) =
      Some \<lparr>status_code = 200, resp_text = demo_ranks_text, resp_headers = Map.empty\<rparr>"
    by (simp add: demo_ads_site_simps)
  show "ok_status \<lparr>status_code = 200, resp_text = demo_ranks_text, resp_headers = Map.empty\<rparr>"
    by (simp add: ok_status_def)
  show "json_loads (demo_ads_env demo_ads_text)
      (resp_text \<lparr>status_code = 200, resp_text = demo_ranks_text, resp_headers = Map.empty\<rparr>)
      = Some (JObj [(''ranks'', JObj [(''101'', JInt 1), (''103'', JInt 2)])])"
    by (simp add: demo_ads_loads_simps)
  show "getitem (JObj [(''ranks'', JObj [(''101'', JInt 1), (''103'', JInt 2)])]) ''ranks''
      = Inr (JObj [(''101'', JInt 1), (''103'', JInt 2)])" by simp
  show "distinct (map fst demo_ads)" by (simp add: demo_ads_def)
  show "distinct (map fst [(''101'', JInt 1), (''103'', JInt 2)])" by simp
  show "\<forall>k\<in>fst ` set [(''101'', JInt 1), (''103'', JInt 2)].
      \<exists>fields. map_of demo_ads k = Some (JObj fields)"
    by (simp add: demo_ads_def)
qed

lemma demo_zoop_match:
  \<open>re_search zoop_at (replace [newline] [] demo_zoop_script) = Some ''{token: "zt1"}''\<close>
  by (simp add: demo_zoop_script_def starts_with_def newline_def re_search.simps zoop_at_def
      config_at_def contains.simps)

lemma demo_xsrf_token:
  "get_xsrf_token (demo_ads_env t) demo_my_ads_page s = (Inr (JStr ''zt1''), s)"
  by (simp add: get_xsrf_token_def inline_scripts_def demo_ads_parser_def demo_zoop_match
      demo_yaml_load_def lift_result_def)

lemma demo_deletes_succeed: "deletes_succeed (demo_ads_env t)"
  unfolding deletes_succeed_def
proof (intro allI)
  fix hist :: "request list" and ad_id :: json
  show "\<exists>page token resp.
        server (demo_ads_env t) hist (get_request my_ads_url []) = Some page \<and>
        (\<forall>s. get_xsrf_token (demo_ads_env t) (resp_text page) s = (Inr token, s)) \<and>
        server (demo_ads_env t) (hist @ [get_request my_ads_url []])
          (post_request delete_url (delete_params (demo_ads_env t) ad_id token) [] []) = Some resp \<and>
        contains ''OK'' (resp_text resp)"
    by (intro exI [of _ "\<lparr>status_code = 200, resp_text = demo_my_ads_page, resp_headers = Map.empty\<rparr>"]
        exI [of _ "JStr ''zt1''"]
        exI [of _ "\<lparr>status_code = 200, resp_text = ''{\"status\":\"OK\"}'', resp_headers = Map.empty\<rparr>"])
      (simp add: demo_ads_site_simps demo_xsrf_token contains.simps starts_with_def)
qed

lemma demo_delete_fields:
  \<open>delete_ads_field (demo_ads_env t) (JInt 101) =
     ''[{"adId":"101","reason":"PREFER_NOT_TO_SAY","otherReason":""}]''\<close>
  \<open>delete_ads_field (demo_ads_env t) (JInt 102) =
     ''[{"adId":"102","reason":"PREFER_NOT_TO_SAY","otherReason":""}]''\<close>
  by (simp_all add: delete_ads_field_def demo_str_of_def show_nat.simps)

lemma demo_strips:
  "strip ''Foo'' = ''Foo''" "strip ''Foo '' = ''Foo''" "strip ''Bar'' = ''Bar''"
  by (simp_all add: strip_def is_space_def)

theorem delete_by_title_witness:
  \<open>fst (delete_ad_using_title (demo_ads_env demo_ads_text) ''Foo'' state0) = Inr () \<and>
   deleted_ads (sent (snd (delete_ad_using_title (demo_ads_env demo_ads_text) ''Foo'' state0))) =
     [Some (JStr ''[{"adId":"101","reason":"PREFER_NOT_TO_SAY","otherReason":""}]''),
      Some (JStr ''[{"adId":"102","reason":"PREFER_NOT_TO_SAY","otherReason":""}]'')]\<close>
proof -
  let ?e = "demo_ads_env demo_ads_text"
  let ?s1 = "state0\<lparr>sent := sent state0 @ [get_request ads_url [],
         get_request ranks_url (map (Pair ''ids'') [JInt 101, JInt 102, JInt 103])]\<rparr>"
  have l: "list_all2 (\<lambda>ad (t, i). getitem ad ''title'' = Inr (JStr t) \<and> getitem ad ''id'' = Inr i)
     (map (with_rank [(''101'', JInt 1), (''103'', JInt 2)]) demo_ads)
     [(''Foo'', JInt 101), (''Foo '', JInt 102), (''Bar'', JInt 103)]"
    by (simp add: demo_ads_def with_rank_def)
  from delete_by_title_deletes_matches [where env = ?e and s = state0 and ?s1.0 = ?s1
      and all_ads = "map (with_rank [(''101'', JInt 1), (''103'', JInt 2)]) demo_ads"
      and tis = "[(''Foo'', JInt 101), (''Foo '', JInt 102), (''Bar'', JInt 103)]"
      and title = "''Foo''"] demo_get_all_ads l demo_deletes_succeed
  obtain s' new where r: "delete_ad_using_title ?e ''Foo'' state0 = (Inr (), s')"
    "sent s' = sent ?s1 @ new"
    "deleted_ads new = map (\<lambda>(t, i). Some (JStr (delete_ads_field ?e i)))
        (filter (\<lambda>(t, i). strip t = strip ''Foo'')
           [(''Foo'', JInt 101), (''Foo '', JInt 102), (''Bar'', JInt 103)])"
    by blast
  have "deleted_ads (sent ?s1) = []"
    by (simp add: deleted_ads_def get_request_def ads_url_def ranks_url_def delete_url_def)
  with r(2) have "deleted_ads (sent s') = deleted_ads new"
    by (simp only: deleted_ads_append) simp
  with r(1,3) show ?thesis
    by (simp add: demo_strips demo_delete_fields)
qed

end
